theory Spec2Isabelle
  imports Main "HOL-Library.Monad_Syntax"
begin

section \<open>Data model of the Docker Swarm operator\<close>

text \<open>
  The development embeds \<^verbatim>\<open>DockerSwarmOperator\<close> of
  \<^verbatim>\<open>providers/docker/src/airflow/providers/docker/operators/docker_swarm.py\<close>.

  The dictionaries the Docker client returns are read through fixed keys only, so they
  are records of those keys: a service is its \<^verbatim>\<open>"ID"\<close>, a task is its
  \<^verbatim>\<open>["Status"]["State"]\<close> and its optional
  \<^verbatim>\<open>["Status"]["ContainerStatus"]["ContainerID"]\<close> (reading an absent one is
  a KeyError), a container is its \<^verbatim>\<open>"Id"\<close>. A service dictionary always holds
  its \<^verbatim>\<open>"ID"\<close>, so a service that is not None is truthy.
\<close>

record service =
  service_ID :: string

record task =
  task_State :: string
  task_ContainerID :: "string option"

record container =
  container_Id :: string

text \<open>
  A naive \<^verbatim>\<open>datetime\<close>, as \<^verbatim>\<open>datetime.strptime\<close> builds it. The cursor
  handed to \<^verbatim>\<open>service_logs(since=...)\<close> is the integer 0 at first and the float
  that \<^verbatim>\<open>datetime.timestamp()\<close> returns afterwards. For a naive value that float is
  \<^verbatim>\<open>s + microsecond / 1e6\<close>, where \<^verbatim>\<open>s\<close> is the whole number of epoch
  seconds of the wall-clock time read in the local zone of the host; \<open>Since_timestamp s us\<close>
  stands for it, the division and the sum left unevaluated.
\<close>

record datetime =
  dt_year :: nat
  dt_month :: nat
  dt_day :: nat
  dt_hour :: nat
  dt_minute :: nat
  dt_second :: nat
  dt_microsecond :: nat

datatype cursor = Since_0 | Since_timestamp int nat

text \<open>The exceptions the operator raises or lets through.\<close>

datatype airflow_message =
    Invalid_logging_driver string
  | Service_did_not_complete service

datatype exn =
    AirflowException airflow_message
  | RuntimeError string
  | IndexError
  | KeyError string
  | AttributeError
  | ValueError string
  | TypeError
  | UnboundLocalError
  | OverflowError
  | OSError
  | APIError
  | OtherError string

text \<open>
  The orchestrator client \<^verbatim>\<open>self.cli\<close>. The operator is its only caller, so its
  answers are a script: \<open>tasks_reply c n\<close> is the answer to the \<open>n\<close>-th call of
  \<^verbatim>\<open>cli.tasks\<close> (counting from 0), \<open>service_logs_reply c n since\<close> the lines
  (already decoded) of the \<open>n\<close>-th call of \<^verbatim>\<open>cli.service_logs\<close>.
  \<open>copy_from_docker_reply\<close> stands for the inherited \<^verbatim>\<open>_copy_from_docker\<close>,
  which may raise. The other calls are taken to answer without raising.

  The last field is not part of the client. It is the other thing outside the operator that
  an execution depends on: the conversion of a naive local time to whole epoch seconds by
  the host (its time zone and its C library), on which \<^verbatim>\<open>datetime.timestamp()\<close>
  rests. It fails with a ValueError when the year leaves the range of
  \<^verbatim>\<open>datetime\<close> (the message, which names the year, is abridged), and with an
  OverflowError or an OSError when the host cannot represent the time.
\<close>

datatype time_error = Year_out_of_range | Time_overflow | Time_os_error

fun exn_of_time_error :: "time_error \<Rightarrow> exn" where
  "exn_of_time_error Year_out_of_range = ValueError ''year is out of range''"
| "exn_of_time_error Time_overflow = OverflowError"
| "exn_of_time_error Time_os_error = OSError"

record client =
  create_service_reply :: "service option"
  tasks_reply :: "nat \<Rightarrow> task list"
  service_logs_reply :: "nat \<Rightarrow> cursor \<Rightarrow> string list"
  inspect_container_reply :: "string \<Rightarrow> container"
  copy_from_docker_reply :: "string \<Rightarrow> string \<Rightarrow> exn + string"
  local_mktime :: "datetime \<Rightarrow> time_error + int"

datatype call =
    Create_service
  | Tasks string
  | Service_logs string cursor
  | Inspect_container string
  | Copy_from_docker string string
  | Remove_service string

text \<open>
  What an execution leaves outside the operator object: the calls the client received,
  oldest first, and the container log messages forwarded to \<^verbatim>\<open>self.log.info\<close>.
\<close>

record world =
  calls :: "call list"
  log_info :: "string list"

text \<open>
  The operator object. \<open>auto_remove\<close>, \<open>retrieve_output\<close>, \<open>retrieve_output_path\<close>
  and \<open>tty\<close> are attributes set by the base class \<^verbatim>\<open>DockerOperator\<close>.
\<close>

datatype args = Args_str string | Args_list "string list"

record operator =
  auto_remove :: string
  retrieve_output :: bool
  retrieve_output_path :: string
  tty :: bool
  args :: "args option"
  enable_logging :: bool
  logging_driver :: "string option"
  logging_driver_opts :: "(string \<times> string) list option"
  log_driver_config :: "(string \<times> (string \<times> string) list option) option"
  service :: "service option"
  tasks :: "task list"
  containers :: "container list"

section \<open>Client calls\<close>

fun is_Tasks :: "call \<Rightarrow> bool" where
  "is_Tasks (Tasks _) = True"
| "is_Tasks _ = False"

fun is_Service_logs :: "call \<Rightarrow> bool" where
  "is_Service_logs (Service_logs _ _) = True"
| "is_Service_logs _ = False"

definition record_call :: "call \<Rightarrow> world \<Rightarrow> world" where
  "record_call k w = w\<lparr>calls := calls w @ [k]\<rparr>"

definition cli_create_service :: "client \<Rightarrow> world \<Rightarrow> service option \<times> world" where
  "cli_create_service c w = (create_service_reply c, record_call Create_service w)"

definition cli_tasks :: "client \<Rightarrow> string \<Rightarrow> world \<Rightarrow> task list \<times> world" where
  "cli_tasks c sid w =
     (tasks_reply c (length (filter is_Tasks (calls w))), record_call (Tasks sid) w)"

definition cli_service_logs :: "client \<Rightarrow> string \<Rightarrow> cursor \<Rightarrow> world \<Rightarrow> string list \<times> world" where
  "cli_service_logs c sid since w =
     (service_logs_reply c (length (filter is_Service_logs (calls w))) since,
      record_call (Service_logs sid since) w)"

definition cli_inspect_container :: "client \<Rightarrow> string \<Rightarrow> world \<Rightarrow> container \<times> world" where
  "cli_inspect_container c cid w =
     (inspect_container_reply c cid, record_call (Inspect_container cid) w)"

definition cli_remove_service :: "string \<Rightarrow> world \<Rightarrow> world" where
  "cli_remove_service sid w = record_call (Remove_service sid) w"

definition copy_from_docker :: "client \<Rightarrow> string \<Rightarrow> string \<Rightarrow> world \<Rightarrow> (exn + string) \<times> world" where
  "copy_from_docker c cid path w =
     (copy_from_docker_reply c cid path, record_call (Copy_from_docker cid path) w)"

section \<open>Service status\<close>

text \<open>
  \<^verbatim>\<open>_service_status\<close>: the precondition on the handle, then the state of element 0
  of the task list (an IndexError on an empty list).
\<close>

definition service_status :: "client \<Rightarrow> operator \<Rightarrow> world \<Rightarrow> (exn + string) \<times> world" where
  "service_status c self w =
     (case service self of
        None \<Rightarrow> (Inl (RuntimeError ''The 'service' should be initialized before!''), w)
      | Some svc \<Rightarrow>
          (case cli_tasks c (service_ID svc) w of
             ([], w') \<Rightarrow> (Inl IndexError, w')
           | (t # _, w') \<Rightarrow> (Inr (task_State t), w')))"

text \<open>\<^verbatim>\<open>_has_service_terminated\<close>.\<close>

definition has_service_terminated :: "client \<Rightarrow> operator \<Rightarrow> world \<Rightarrow> (exn + bool) \<times> world" where
  "has_service_terminated c self w =
     (case service_status c self w of
        (Inl e, w') \<Rightarrow> (Inl e, w')
      | (Inr status, w') \<Rightarrow>
          (Inr (status \<in> set [''complete'', ''failed'', ''shutdown'', ''rejected'',
                             ''orphaned'', ''remove'']), w'))"

section \<open>Construction\<close>

text \<open>
  \<^verbatim>\<open>__init__\<close>. The keyword arguments the base class consumes arrive as the
  attributes it sets; the body of this class stores its own arguments and validates the
  logging driver. \<^verbatim>\<open>if self.logging_driver:\<close> is a truthiness test: None and the
  empty string skip the validation. The constructor has no access to a world, so it is a
  function of its arguments alone; it threads the world only to state that it leaves it as
  it found it.
\<close>

record kwargs =
  kw_auto_remove :: string
  kw_retrieve_output :: bool
  kw_retrieve_output_path :: string
  kw_tty :: bool
  kw_args :: "args option"
  kw_enable_logging :: bool
  kw_logging_driver :: "string option"
  kw_logging_driver_opts :: "(string \<times> string) list option"

definition supported_logging_drivers :: "string list" where
  "supported_logging_drivers = [''json-file'', ''gelf'']"

definition init :: "kwargs \<Rightarrow> world \<Rightarrow> (exn + operator) \<times> world" where
  "init kw w =
     (let self = \<lparr>auto_remove = kw_auto_remove kw,
                   retrieve_output = kw_retrieve_output kw,
                   retrieve_output_path = kw_retrieve_output_path kw,
                   tty = kw_tty kw,
                   args = kw_args kw,
                   enable_logging = kw_enable_logging kw,
                   logging_driver = kw_logging_driver kw,
                   logging_driver_opts = kw_logging_driver_opts kw,
                   log_driver_config = None,
                   service = None,
                   tasks = [],
                   containers = []\<rparr>
      in case kw_logging_driver kw of
           None \<Rightarrow> (Inr self, w)
         | Some d \<Rightarrow>
             if d = [] then (Inr self, w)
             else if d \<notin> set supported_logging_drivers
               then (Inl (AirflowException (Invalid_logging_driver d)), w)
               else (Inr (self\<lparr>log_driver_config := Some (d, kw_logging_driver_opts kw)\<rparr>), w))"

section \<open>Argument normalisation\<close>

text \<open>
  \<^verbatim>\<open>shlex.split(s)\<close> of the standard library, in its POSIX mode with
  \<^verbatim>\<open>whitespace_split\<close> set and no comment characters: the state machine of
  \<^verbatim>\<open>shlex.read_token\<close>, run over the whole string. The state is \<open>S_ws\<close> (Python's
  \<^verbatim>\<open>' '\<close>), \<open>S_word\<close> (\<^verbatim>\<open>'a'\<close>), inside a quote, or after a
  backslash (with the state to return to).
\<close>

datatype escapedstate = Esc_word | Esc_quote char

datatype shlex_state = S_ws | S_word | S_quote char | S_escape escapedstate

definition shlex_whitespace :: "char list" where
  "shlex_whitespace = [CHR '' '', CHR 0x09, CHR 0x0D, CHR 0x0A]"

definition shlex_quotes :: "char list" where
  "shlex_quotes = [CHR 0x27, CHR 0x22]"

definition shlex_escape :: char where
  "shlex_escape = CHR 0x5C"

definition shlex_escapedquotes :: "char list" where
  "shlex_escapedquotes = [CHR 0x22]"

definition emit :: "string \<Rightarrow> exn + string list \<Rightarrow> exn + string list" where
  "emit token r = (case r of Inl e \<Rightarrow> Inl e | Inr ts \<Rightarrow> Inr (token # ts))"

fun shlex_read :: "shlex_state \<Rightarrow> bool \<Rightarrow> string \<Rightarrow> string \<Rightarrow> exn + string list" where
  "shlex_read S_ws quoted token [] = Inr (if token = [] \<and> \<not> quoted then [] else [token])"
| "shlex_read S_ws quoted token (c # cs) =
     (if c \<in> set shlex_whitespace then
        (if token \<noteq> [] \<or> quoted then emit token (shlex_read S_ws False [] cs)
         else shlex_read S_ws quoted token cs)
      else if c = shlex_escape then shlex_read (S_escape Esc_word) quoted token cs
      else if c \<in> set shlex_quotes then shlex_read (S_quote c) quoted token cs
      else shlex_read S_word quoted [c] cs)"
| "shlex_read (S_quote q) quoted token [] = Inl (ValueError ''No closing quotation'')"
| "shlex_read (S_quote q) quoted token (c # cs) =
     (if c = q then shlex_read S_word True token cs
      else if c = shlex_escape \<and> q \<in> set shlex_escapedquotes
        then shlex_read (S_escape (Esc_quote q)) True token cs
      else shlex_read (S_quote q) True (token @ [c]) cs)"
| "shlex_read (S_escape esc) quoted token [] = Inl (ValueError ''No escaped character'')"
| "shlex_read (S_escape esc) quoted token (c # cs) =
     (case esc of
        Esc_word \<Rightarrow> shlex_read S_word quoted (token @ [c]) cs
      | Esc_quote q \<Rightarrow>
          shlex_read (S_quote q) quoted
            ((if c \<noteq> shlex_escape \<and> c \<noteq> q then token @ [shlex_escape] else token) @ [c]) cs)"
| "shlex_read S_word quoted token [] = Inr (if token = [] \<and> \<not> quoted then [] else [token])"
| "shlex_read S_word quoted token (c # cs) =
     (if c \<in> set shlex_whitespace then
        (if token \<noteq> [] \<or> quoted then emit token (shlex_read S_ws False [] cs)
         else shlex_read S_ws quoted token cs)
      else if c \<in> set shlex_quotes then shlex_read (S_quote c) quoted token cs
      else if c = shlex_escape then shlex_read (S_escape Esc_word) quoted token cs
      else shlex_read S_word quoted (token @ [c]) cs)"

definition shlex_split :: "string \<Rightarrow> exn + string list" where
  "shlex_split s = shlex_read S_ws False [] s"

text \<open>\<^verbatim>\<open>format_args\<close>.\<close>

definition format_args :: "args option \<Rightarrow> exn + string list option" where
  "format_args a =
     (case a of
        Some (Args_str s) \<Rightarrow>
          (case shlex_split s of Inl e \<Rightarrow> Inl e | Inr ws \<Rightarrow> Inr (Some ws))
      | Some (Args_list xs) \<Rightarrow> Inr (Some xs)
      | None \<Rightarrow> Inr None)"

text \<open>
  The reference for C8: shell-word splitting of a string that holds no quote and no
  backslash, stated without the state machine. The words are the maximal runs of characters
  that are not whitespace, in order.
\<close>

definition is_space :: "char \<Rightarrow> bool" where
  "is_space c = (c \<in> set shlex_whitespace)"

definition plain :: "string \<Rightarrow> bool" where
  "plain s = list_all (\<lambda>c. c \<notin> set shlex_quotes \<and> c \<noteq> shlex_escape) s"

function split_words :: "string \<Rightarrow> string list" where
  "split_words s =
     (if dropWhile is_space s = [] then []
      else takeWhile (\<lambda>c. \<not> is_space c) (dropWhile is_space s)
           # split_words (dropWhile (\<lambda>c. \<not> is_space c) (dropWhile is_space s)))"
  by pat_completeness auto
termination
proof (relation "measure length")
  fix s :: string
  assume ne: "dropWhile is_space s \<noteq> []"
  then obtain c cs where r: "dropWhile is_space s = c # cs"
    by (cases "dropWhile is_space s") auto
  then have "\<not> is_space c"
    using hd_dropWhile [OF ne] by simp
  then have "length (dropWhile (\<lambda>c. \<not> is_space c) (c # cs)) \<le> length cs"
    by (simp add: length_dropWhile_le)
  also have "length cs < length (dropWhile is_space s)"
    by (simp add: r)
  also have "\<dots> \<le> length s"
    by (rule length_dropWhile_le)
  finally show "(dropWhile (\<lambda>c. \<not> is_space c) (dropWhile is_space s), s) \<in> measure length"
    by (simp add: r)
qed simp

declare split_words.simps [simp del]

text \<open>
  The second reference for C8, written from the quoting rules of the POSIX shell and not
  from \<^verbatim>\<open>shlex\<close>: words are separated by spaces, tabs and newlines; a backslash
  outside quotes keeps the next character, and with a newline after it both are removed;
  between single quotes every character is kept; between double quotes a backslash is
  removed before a dollar sign, a backquote, a double quote and a backslash, is removed
  together with a newline after it, and is kept before anything else. The argument
  \<open>word\<close> is the word read so far, if one has begun. The result \<open>None\<close> is an input
  that is not complete: an open quote, or a backslash with nothing after it. Comments,
  operators and expansions of the shell language are not part of the reference.
\<close>

definition posix_blanks :: "char list" where
  "posix_blanks = [CHR '' '', CHR 0x09, CHR 0x0A]"

definition begun :: "string option \<Rightarrow> string" where
  "begun word = (case word of None \<Rightarrow> [] | Some w \<Rightarrow> w)"

fun posix_unquoted :: "string option \<Rightarrow> string \<Rightarrow> string list option"
  and posix_single :: "string \<Rightarrow> string \<Rightarrow> string list option"
  and posix_double :: "string \<Rightarrow> string \<Rightarrow> string list option" where
  "posix_unquoted word [] = Some (case word of None \<Rightarrow> [] | Some w \<Rightarrow> [w])"
| "posix_unquoted word (c # cs) =
     (if c \<in> set posix_blanks then
        (case word of
           None \<Rightarrow> posix_unquoted None cs
         | Some w \<Rightarrow> map_option (\<lambda>ws. w # ws) (posix_unquoted None cs))
      else if c = CHR 0x5C then
        (case cs of
           [] \<Rightarrow> None
         | d # ds \<Rightarrow>
             if d = CHR 0x0A then posix_unquoted word ds
             else posix_unquoted (Some (begun word @ [d])) ds)
      else if c = CHR 0x27 then posix_single (begun word) cs
      else if c = CHR 0x22 then posix_double (begun word) cs
      else posix_unquoted (Some (begun word @ [c])) cs)"
| "posix_single w [] = None"
| "posix_single w (c # cs) =
     (if c = CHR 0x27 then posix_unquoted (Some w) cs else posix_single (w @ [c]) cs)"
| "posix_double w [] = None"
| "posix_double w (c # cs) =
     (if c = CHR 0x22 then posix_unquoted (Some w) cs
      else if c = CHR 0x5C then
        (case cs of
           [] \<Rightarrow> None
         | d # ds \<Rightarrow>
             if d \<in> set [CHR ''$'', CHR 0x60, CHR 0x22, CHR 0x5C] then posix_double (w @ [d]) ds
             else if d = CHR 0x0A then posix_double w ds
             else posix_double (w @ [c, d]) ds)
      else posix_double (w @ [c]) cs)"

definition posix_split :: "string \<Rightarrow> string list option" where
  "posix_split s = posix_unquoted None s"

text \<open>
  The strings on which the two sets of rules are compared: no carriage return (whitespace
  for \<^verbatim>\<open>shlex\<close>, an ordinary character for the shell), and no backslash directly
  before a dollar sign, a backquote or a newline (kept by \<^verbatim>\<open>shlex\<close> where the shell
  removes it).
\<close>

fun posix_safe :: "string \<Rightarrow> bool" where
  "posix_safe [] = True"
| "posix_safe [c] = (c \<noteq> CHR 0x0D)"
| "posix_safe (c # d # ds) =
     (c \<noteq> CHR 0x0D \<and> \<not> (c = CHR 0x5C \<and> d \<in> set [CHR ''$'', CHR 0x60, CHR 0x0A])
      \<and> posix_safe (d # ds))"

text \<open>
  The two sets of rules are compared through the word the state machine has begun
  (\<open>word_of\<close>: none while the token is empty and no quote has been read) and the
  words it returns (\<open>words_of\<close>: none when it raises).
\<close>

definition word_of :: "bool \<Rightarrow> string \<Rightarrow> string option" where
  "word_of quoted token = (if token = [] \<and> \<not> quoted then None else Some token)"

definition words_of :: "exn + string list \<Rightarrow> string list option" where
  "words_of r = (case r of Inl e \<Rightarrow> None | Inr ws \<Rightarrow> Some ws)"

section \<open>Result retrieval\<close>

text \<open>
  What \<^verbatim>\<open>_run_service\<close> returns: None, one copied value, or a list of them.
\<close>

datatype result = Py_None | Value string | Values "string list"

fun copy_all :: "client \<Rightarrow> string \<Rightarrow> container list \<Rightarrow> string list \<Rightarrow> world
    \<Rightarrow> (exn + string list) \<times> world" where
  "copy_all c path [] file_contents w = (Inr file_contents, w)"
| "copy_all c path (k # ks) file_contents w =
     (case copy_from_docker c (container_Id k) path w of
        (Inl e, w') \<Rightarrow> (Inl e, w')
      | (Inr file_content, w') \<Rightarrow> copy_all c path ks (file_contents @ [file_content]) w')"

text \<open>\<^verbatim>\<open>_attempt_to_retrieve_results\<close>: only an APIError is caught.\<close>

definition attempt_to_retrieve_results :: "client \<Rightarrow> operator \<Rightarrow> world \<Rightarrow> (exn + result) \<times> world" where
  "attempt_to_retrieve_results c self w =
     (case copy_all c (retrieve_output_path self) (containers self) [] w of
        (Inl e, w') \<Rightarrow> (if e = APIError then (Inr Py_None, w') else (Inl e, w'))
      | (Inr file_contents, w') \<Rightarrow>
          (case file_contents of
             [v] \<Rightarrow> (Inr (Value v), w')
           | _ \<Rightarrow> (Inr (Values file_contents), w')))"

section \<open>Log lines and timestamps\<close>

text \<open>
  Lines are modelled after decoding; digits are the ASCII digits.
  \<open>match_line\<close> is \<^verbatim>\<open>re.match(r"(\d{4}-\d{2}-\d{2}T\d{2}:\d{2}:\d{2}.\d{6,}Z) (.*)", line)\<close>:
  a fixed-width prefix whose last item is the unescaped dot (any character but a newline),
  all the digits that follow (at least six), \<^verbatim>\<open>Z\<close>, a space, and the message up to
  the first newline. The result is the pair of groups.
\<close>

definition newline :: char where
  "newline = CHR 0x0A"

definition is_digit :: "char \<Rightarrow> bool" where
  "is_digit c = (c \<in> set ''0123456789'')"

datatype item = Digit | Lit char | Any_char

fun item_ok :: "item \<Rightarrow> char \<Rightarrow> bool" where
  "item_ok Digit c = is_digit c"
| "item_ok (Lit l) c = (c = l)"
| "item_ok Any_char c = (c \<noteq> newline)"

fun match_items :: "item list \<Rightarrow> string \<Rightarrow> (string \<times> string) option" where
  "match_items [] s = Some ([], s)"
| "match_items (i # is) [] = None"
| "match_items (i # is) (c # cs) =
     (if item_ok i c
      then (case match_items is cs of None \<Rightarrow> None | Some (m, r) \<Rightarrow> Some (c # m, r))
      else None)"

definition line_prefix :: "item list" where
  "line_prefix =
     [Digit, Digit, Digit, Digit, Lit CHR ''-'', Digit, Digit, Lit CHR ''-'', Digit, Digit,
      Lit CHR ''T'', Digit, Digit, Lit CHR '':'', Digit, Digit, Lit CHR '':'', Digit, Digit,
      Any_char]"

definition match_line :: "string \<Rightarrow> (string \<times> string) option" where
  "match_line line =
     (case match_items line_prefix line of
        None \<Rightarrow> None
      | Some (p, r) \<Rightarrow>
          if length (takeWhile is_digit r) < 6 then None
          else (case dropWhile is_digit r of
                  z # sp # msg \<Rightarrow>
                    if z = CHR ''Z'' \<and> sp = CHR '' ''
                    then Some (p @ takeWhile is_digit r @ ''Z'',
                               takeWhile (\<lambda>c. c \<noteq> newline) msg)
                    else None
                | _ \<Rightarrow> None))"

text \<open>
  \<open>floor_nanoseconds\<close> is \<^verbatim>\<open>re.sub(r"(\.\d{6})\d+Z", r"\1Z", timestamp)\<close>: at every
  dot followed by at least seven digits and then \<^verbatim>\<open>Z\<close>, the digits after the sixth
  are dropped; everything else is copied.
\<close>

function floor_nanoseconds :: "string \<Rightarrow> string" where
  "floor_nanoseconds [] = []"
| "floor_nanoseconds (c # cs) =
     (if c = CHR ''.'' \<and> 7 \<le> length (takeWhile is_digit cs)
         \<and> take 1 (dropWhile is_digit cs) = ''Z''
      then c # take 6 cs @ ''Z'' @ floor_nanoseconds (drop 1 (dropWhile is_digit cs))
      else c # floor_nanoseconds cs)"
  by pat_completeness auto
termination
proof (relation "measure length")
  fix c :: char and cs :: string
  have "length (dropWhile is_digit cs) \<le> length cs"
    by (rule length_dropWhile_le)
  then show "(drop 1 (dropWhile is_digit cs), c # cs) \<in> measure length"
    by simp
qed simp_all

text \<open>
  \<open>strptime\<close> is \<^verbatim>\<open>datetime.strptime(s, "%Y-%m-%dT%H:%M:%S.%fZ")\<close>. The format
  compiles to one regular expression, matched ignoring case: four digits for the year, then
  fields of one or two digits (the day may also be a space and a digit) between the literal
  separators, one to six digits of fraction, \<^verbatim>\<open>Z\<close>, and nothing after it. No field
  can hold its separator, so each field is the text up to the next separator. The date and
  the second are then validated by the \<^verbatim>\<open>datetime\<close> constructors. Every failure is
  a ValueError; its message is abridged here.
\<close>

fun nat_of_digits :: "nat \<Rightarrow> string \<Rightarrow> nat" where
  "nat_of_digits acc [] = acc"
| "nat_of_digits acc (c # cs) = nat_of_digits (10 * acc + (of_char c - 48)) cs"

definition number_field :: "string \<Rightarrow> nat \<Rightarrow> nat \<Rightarrow> nat option" where
  "number_field token lo hi =
     (if token \<noteq> [] \<and> length token \<le> 2 \<and> list_all is_digit token
         \<and> lo \<le> nat_of_digits 0 token \<and> nat_of_digits 0 token \<le> hi
      then Some (nat_of_digits 0 token) else None)"

definition day_field :: "string \<Rightarrow> nat option" where
  "day_field token =
     (case token of
        [sp, d] \<Rightarrow>
          if sp = CHR '' '' \<and> is_digit d \<and> d \<noteq> CHR ''0'' then Some (nat_of_digits 0 [d])
          else number_field token 1 31
      | _ \<Rightarrow> number_field token 1 31)"

definition fraction_field :: "string \<Rightarrow> nat option" where
  "fraction_field token =
     (if token \<noteq> [] \<and> length token \<le> 6 \<and> list_all is_digit token
      then Some (nat_of_digits 0 (token @ replicate (6 - length token) CHR ''0''))
      else None)"

definition split_at :: "char list \<Rightarrow> string \<Rightarrow> (string \<times> string) option" where
  "split_at seps s =
     (case dropWhile (\<lambda>c. c \<notin> set seps) s of
        [] \<Rightarrow> None
      | _ # r \<Rightarrow> Some (takeWhile (\<lambda>c. c \<notin> set seps) s, r))"

definition is_leap :: "nat \<Rightarrow> bool" where
  "is_leap y = (y mod 4 = 0 \<and> (y mod 100 \<noteq> 0 \<or> y mod 400 = 0))"

definition days_in_month :: "nat \<Rightarrow> nat \<Rightarrow> nat" where
  "days_in_month y m =
     (if m = 2 then (if is_leap y then 29 else 28)
      else if m \<in> set [4, 6, 9, 11] then 30 else 31)"

definition no_match :: exn where
  "no_match = ValueError ''time data does not match format''"

definition strptime :: "string \<Rightarrow> exn + datetime" where
  "strptime s =
     (if length (take 4 s) < 4 \<or> \<not> list_all is_digit (take 4 s) then Inl no_match
      else case drop 4 s of
        [] \<Rightarrow> Inl no_match
      | dash # s1 \<Rightarrow>
      if dash \<noteq> CHR ''-'' then Inl no_match else
      case split_at ''-'' s1 of None \<Rightarrow> Inl no_match | Some (mo, s2) \<Rightarrow>
      case split_at ''Tt'' s2 of None \<Rightarrow> Inl no_match | Some (d, s3) \<Rightarrow>
      case split_at '':'' s3 of None \<Rightarrow> Inl no_match | Some (h, s4) \<Rightarrow>
      case split_at '':'' s4 of None \<Rightarrow> Inl no_match | Some (mi, s5) \<Rightarrow>
      case split_at ''.'' s5 of None \<Rightarrow> Inl no_match | Some (se, s6) \<Rightarrow>
      case split_at ''Zz'' s6 of None \<Rightarrow> Inl no_match | Some (f, s7) \<Rightarrow>
      case (number_field mo 1 12, day_field d, number_field h 0 23, number_field mi 0 59,
            number_field se 0 61, fraction_field f) of
        (Some month, Some day, Some hour, Some minute, Some second, Some fraction) \<Rightarrow>
          if s7 \<noteq> [] then Inl (ValueError ''unconverted data remains'')
          else if nat_of_digits 0 (take 4 s) < 1 then Inl (ValueError ''year 0 is out of range'')
          else if days_in_month (nat_of_digits 0 (take 4 s)) month < day
            then Inl (ValueError ''day is out of range for month'')
          else if 59 < second then Inl (ValueError ''second must be in 0..59'')
          else Inr \<lparr>dt_year = nat_of_digits 0 (take 4 s), dt_month = month, dt_day = day,
                     dt_hour = hour, dt_minute = minute, dt_second = second,
                     dt_microsecond = fraction\<rparr>
      | _ \<Rightarrow> Inl no_match)"

text \<open>
  \<^verbatim>\<open>datetime.timestamp()\<close> of a naive value:
  \<^verbatim>\<open>s = self._mktime(); return s + self.microsecond / 1e6\<close>.
\<close>

definition datetime_timestamp :: "client \<Rightarrow> datetime \<Rightarrow> exn + cursor" where
  "datetime_timestamp c dt =
     (case local_mktime c dt of
        Inl e \<Rightarrow> Inl (exn_of_time_error e)
      | Inr s \<Rightarrow> Inr (Since_timestamp s (dt_microsecond dt)))"

section \<open>Log streaming\<close>

text \<open>\<^verbatim>\<open>logs.index(x)\<close>, used only where \<open>x\<close> is in the list.\<close>

fun index :: "'a list \<Rightarrow> 'a \<Rightarrow> nat" where
  "index [] x = 0"
| "index (y # ys) x = (if y = x then 0 else Suc (index ys x))"

text \<open>
  The de-duplication of \<^verbatim>\<open>stream_new_logs\<close>:
  \<^verbatim>\<open>if last_line_logged in logs: logs = logs[logs.index(last_line_logged) + 1 :]\<close>.
\<close>

definition drop_logged :: "string \<Rightarrow> string list \<Rightarrow> string list" where
  "drop_logged last_line_logged fetched =
     (if last_line_logged \<in> set fetched
      then drop (index fetched last_line_logged + 1) fetched
      else fetched)"

text \<open>
  The \<^verbatim>\<open>for line in logs\<close> loop of \<^verbatim>\<open>stream_new_logs\<close>. The loop variables
  \<^verbatim>\<open>line\<close> and \<^verbatim>\<open>timestamp\<close> are unbound (\<open>None\<close>) until the first
  iteration. A line the pattern does not match makes \<^verbatim>\<open>match\<close> None, and
  \<^verbatim>\<open>match.groups()\<close> an AttributeError.
\<close>

fun log_lines :: "string list \<Rightarrow> (string \<times> string) option \<Rightarrow> world
    \<Rightarrow> (exn + (string \<times> string) option) \<times> world" where
  "log_lines [] bound w = (Inr bound, w)"
| "log_lines (line # rest) bound w =
     (case match_line line of
        None \<Rightarrow> (Inl AttributeError, w)
      | Some (timestamp, message) \<Rightarrow>
          log_lines rest (Some (line, timestamp)) (w\<lparr>log_info := log_info w @ [message]\<rparr>))"

text \<open>
  \<^verbatim>\<open>stream_new_logs(last_line_logged, since)\<close>, the function nested in
  \<^verbatim>\<open>_stream_logs_to_output\<close>.
\<close>

definition stream_new_logs :: "client \<Rightarrow> operator \<Rightarrow> string \<Rightarrow> cursor \<Rightarrow> world
    \<Rightarrow> (exn + string \<times> cursor) \<times> world" where
  "stream_new_logs c self last_line_logged since w =
     (case service self of
        None \<Rightarrow> (Inl TypeError, w)
      | Some svc \<Rightarrow>
          (case cli_service_logs c (service_ID svc) since w of
             (fetched, w1) \<Rightarrow>
               let logs = drop_logged last_line_logged fetched
               in case log_lines logs None w1 of
                    (Inl e, w2) \<Rightarrow> (Inl e, w2)
                  | (Inr bound, w2) \<Rightarrow>
                      if length logs = 0 then (Inr (last_line_logged, since), w2)
                      else (case bound of
                              None \<Rightarrow> (Inl UnboundLocalError, w2)
                            | Some (line, timestamp) \<Rightarrow>
                                (case strptime (floor_nanoseconds timestamp) of
                                   Inl e \<Rightarrow> (Inl e, w2)
                                 | Inr parsed \<Rightarrow>
                                     (case datetime_timestamp c parsed of
                                        Inl e \<Rightarrow> (Inl e, w2)
                                      | Inr last_timestamp \<Rightarrow>
                                          (Inr (line, last_timestamp), w2))))))"

text \<open>
  The \<^verbatim>\<open>while not self._has_service_terminated()\<close> loop of
  \<^verbatim>\<open>_stream_logs_to_output\<close>; it may run forever, which is the value \<open>None\<close>.
  The \<^verbatim>\<open>sleep(2)\<close> between polls has no effect on the values and is left out.
\<close>

partial_function (option) stream_loop :: "client \<Rightarrow> operator \<Rightarrow> string \<Rightarrow> cursor \<Rightarrow> world
    \<Rightarrow> ((exn + unit) \<times> world) option" where
  "stream_loop c self last_line_logged last_timestamp w =
     (case has_service_terminated c self w of
        (Inl e, w1) \<Rightarrow> Some (Inl e, w1)
      | (Inr terminated, w1) \<Rightarrow>
          if terminated then Some (Inr (), w1)
          else (case stream_new_logs c self last_line_logged last_timestamp w1 of
                  (Inl e, w2) \<Rightarrow> Some (Inl e, w2)
                | (Inr (line, ts), w2) \<Rightarrow> stream_loop c self line ts w2))"

declare stream_loop.simps [code]

text \<open>\<^verbatim>\<open>_stream_logs_to_output\<close>.\<close>

definition stream_logs_to_output :: "client \<Rightarrow> operator \<Rightarrow> world \<Rightarrow> ((exn + unit) \<times> world) option" where
  "stream_logs_to_output c self w =
     (case service self of
        None \<Rightarrow> Some (Inl (RuntimeError ''The 'service' should be initialized before!''), w)
      | Some _ \<Rightarrow> stream_loop c self [] Since_0 w)"

section \<open>Reference notions for the log properties\<close>







section \<open>Running the service\<close>

text \<open>
  The stages of \<^verbatim>\<open>_run_service\<close>, in the order of the source. The two
  \<^verbatim>\<open>while\<close> loops poll with no bound, so each is a partial function.

  \<open>wait_for_tasks\<close>: \<^verbatim>\<open>while not self.cli.tasks(...): continue\<close>.
\<close>

partial_function (option) wait_for_tasks :: "client \<Rightarrow> string \<Rightarrow> world \<Rightarrow> world option" where
  "wait_for_tasks c sid w =
     (case cli_tasks c sid w of
        ([], w') \<Rightarrow> wait_for_tasks c sid w'
      | (_ # _, w') \<Rightarrow> Some w')"

declare wait_for_tasks.simps [code]

text \<open>
  \<open>poll_until_terminated\<close>: the \<^verbatim>\<open>while True\<close> loop; the log message built
  before the \<^verbatim>\<open>break\<close> asks for the status once more.
\<close>

partial_function (option) poll_until_terminated :: "client \<Rightarrow> operator \<Rightarrow> world
    \<Rightarrow> ((exn + unit) \<times> world) option" where
  "poll_until_terminated c self w =
     (case has_service_terminated c self w of
        (Inl e, w1) \<Rightarrow> Some (Inl e, w1)
      | (Inr terminated, w1) \<Rightarrow>
          if terminated
          then (case service_status c self w1 of
                  (Inl e, w2) \<Rightarrow> Some (Inl e, w2)
                | (Inr _, w2) \<Rightarrow> Some (Inr (), w2))
          else poll_until_terminated c self w1)"

declare poll_until_terminated.simps [code]

text \<open>The \<^verbatim>\<open>for task in self.tasks\<close> loop that harvests the containers.\<close>

fun inspect_tasks :: "client \<Rightarrow> task list \<Rightarrow> operator \<Rightarrow> world
    \<Rightarrow> (exn + unit) \<times> operator \<times> world" where
  "inspect_tasks c [] self w = (Inr (), self, w)"
| "inspect_tasks c (t # ts) self w =
     (case task_ContainerID t of
        None \<Rightarrow> (Inl (KeyError ''ContainerStatus''), self, w)
      | Some container_id \<Rightarrow>
          (case cli_inspect_container c container_id w of
             (container, w') \<Rightarrow>
               inspect_tasks c ts (self\<lparr>containers := containers self @ [container]\<rparr>) w'))"

text \<open>
  \<open>collect_containers\<close>: the block under
  \<^verbatim>\<open>if self.service and self._service_status() == "complete"\<close>.
\<close>

definition collect_containers :: "client \<Rightarrow> operator \<Rightarrow> world \<Rightarrow> (exn + unit) \<times> operator \<times> world" where
  "collect_containers c self w =
     (case service self of
        None \<Rightarrow> (Inr (), self, w)
      | Some svc \<Rightarrow>
          (case service_status c self w of
             (Inl e, w1) \<Rightarrow> (Inl e, self, w1)
           | (Inr status, w1) \<Rightarrow>
               if status = ''complete''
               then (case cli_tasks c (service_ID svc) w1 of
                       (ts, w2) \<Rightarrow> inspect_tasks c ts (self\<lparr>tasks := ts\<rparr>) w2)
               else (Inr (), self, w1)))"

text \<open>
  \<open>remove_or_fail\<close>: the end of \<^verbatim>\<open>_run_service\<close>, from the
  \<^verbatim>\<open>auto_remove\<close> log line on. It is reached only when
  \<^verbatim>\<open>retrieve_output\<close> is false.
\<close>

definition remove_or_fail :: "client \<Rightarrow> operator \<Rightarrow> world \<Rightarrow> (exn + result) \<times> world" where
  "remove_or_fail c self w =
     (case service self of
        None \<Rightarrow>
          if auto_remove self \<in> set [''success'', ''force'']
          then (Inl (RuntimeError ''The 'service' should be initialized before!''), w)
          else (Inr Py_None, w)
      | Some svc \<Rightarrow>
          (case service_status c self w of
             (Inl e, w1) \<Rightarrow> (Inl e, w1)
           | (Inr status, w1) \<Rightarrow>
               if status \<noteq> ''complete''
               then (Inl (AirflowException (Service_did_not_complete svc)),
                     if auto_remove self = ''force''
                     then cli_remove_service (service_ID svc) w1 else w1)
               else if auto_remove self \<in> set [''success'', ''force'']
               then (Inr Py_None, cli_remove_service (service_ID svc) w1)
               else (Inr Py_None, w1)))"

text \<open>
  \<open>finish_service\<close>: the part of \<^verbatim>\<open>_run_service\<close> that follows the log
  streaming: the polling loop, the harvest, and then either the result retrieval or the
  removal and the failure check.
\<close>

definition finish_service :: "client \<Rightarrow> operator \<Rightarrow> world
    \<Rightarrow> ((exn + result) \<times> operator \<times> world) option" where
  "finish_service c self w3 =
     (case poll_until_terminated c self w3 of
        None \<Rightarrow> None
      | Some (Inl e, w4) \<Rightarrow> Some (Inl e, self, w4)
      | Some (Inr _, w4) \<Rightarrow>
     (case collect_containers c self w4 of
        (Inl e, self5, w5) \<Rightarrow> Some (Inl e, self5, w5)
      | (Inr _, self5, w5) \<Rightarrow>
          if retrieve_output self5
          then (case attempt_to_retrieve_results c self5 w5 of (r, w6) \<Rightarrow> Some (r, self5, w6))
          else (case remove_or_fail c self5 w5 of (r, w6) \<Rightarrow> Some (r, self5, w6))))"

text \<open>
  \<^verbatim>\<open>_run_service\<close>. The arguments of \<^verbatim>\<open>create_service\<close> are evaluated
  first, so a string of arguments that \<^verbatim>\<open>shlex\<close> rejects raises before the call
  (the inherited \<^verbatim>\<open>format_command\<close> is not modelled). The result is the returned
  value or the exception, the operator object and the world; \<open>None\<close> is an execution
  that polls forever.
\<close>

definition run_service :: "client \<Rightarrow> operator \<Rightarrow> world
    \<Rightarrow> ((exn + result) \<times> operator \<times> world) option" where
  "run_service c self0 w0 =
     (case format_args (args self0) of
        Inl e \<Rightarrow> Some (Inl e, self0, w0)
      | Inr _ \<Rightarrow>
     (case cli_create_service c w0 of (created, w1) \<Rightarrow>
      let self = self0\<lparr>service := created\<rparr> in
      case created of
        None \<Rightarrow> Some (Inl (RuntimeError ''Service should be set here''), self, w1)
      | Some svc \<Rightarrow>
     (case wait_for_tasks c (service_ID svc) w1 of None \<Rightarrow> None | Some w2 \<Rightarrow>
     (case (if enable_logging self then stream_logs_to_output c self w2 else Some (Inr (), w2)) of
        None \<Rightarrow> None
      | Some (Inl e, w3) \<Rightarrow> Some (Inl e, self, w3)
      | Some (Inr _, w3) \<Rightarrow> finish_service c self w3))))"

section \<open>What a poll shows of a task list\<close>

text \<open>
  The part of an answer of \<^verbatim>\<open>cli.tasks\<close> that C10 is about: whether the list is
  empty, and the state of its first task.
\<close>

definition head_state :: "task list \<Rightarrow> string option" where
  "head_state ts = (case ts of [] \<Rightarrow> None | t # _ \<Rightarrow> Some (task_State t))"

text \<open>
  The number of polls a world has seen, which is the index of the answer to the next one,
  and the states that \<^verbatim>\<open>_has_service_terminated\<close> accepts.
\<close>

definition polls :: "world \<Rightarrow> nat" where
  "polls w = length (filter is_Tasks (calls w))"

definition terminal :: "string \<Rightarrow> bool" where
  "terminal st =
     (st \<in> set [''complete'', ''failed'', ''shutdown'', ''rejected'', ''orphaned'', ''remove''])"

section \<open>Concrete executions\<close>

text \<open>
  A client that answers the polls from a finite script and with one fixed answer once the
  script is used up, an operator as the constructor leaves it, and the empty world.
\<close>

definition scripted :: "'a list \<Rightarrow> 'a list list \<Rightarrow> nat \<Rightarrow> 'a list" where
  "scripted dflt script n = (if n < length script then script ! n else dflt)"

definition one_task :: "string \<Rightarrow> task list" where
  "one_task st = [\<lparr>task_State = st, task_ContainerID = Some ''c1''\<rparr>]"

text \<open>
  The conversion of a host whose local zone is UTC: the days up to the date, as
  \<^verbatim>\<open>date.toordinal\<close> counts them, less those up to 1970-01-01, in seconds, plus the
  time of day. On the first day of year 1 the conversion looks one day back and fails with
  the year out of range.
\<close>

definition days_before_year :: "nat \<Rightarrow> nat" where
  "days_before_year y = 365 * (y - 1) + (y - 1) div 4 - (y - 1) div 100 + (y - 1) div 400"

definition days_before_month :: "nat \<Rightarrow> nat \<Rightarrow> nat" where
  "days_before_month y m = sum_list (map (days_in_month y) [1..<m])"

definition utc_mktime :: "datetime \<Rightarrow> time_error + int" where
  "utc_mktime dt =
     (if dt_year dt = 1 \<and> dt_month dt = 1 \<and> dt_day dt = 1 then Inl Year_out_of_range
      else Inr ((int (days_before_year (dt_year dt) + days_before_month (dt_year dt) (dt_month dt)
                      + dt_day dt) - 719163) * 86400
                + int (dt_hour dt * 3600 + dt_minute dt * 60 + dt_second dt)))"

definition demo_client :: "task list list \<Rightarrow> task list \<Rightarrow> client" where
  "demo_client script final =
     \<lparr>create_service_reply = Some \<lparr>service_ID = ''svc''\<rparr>,
      tasks_reply = scripted final script,
      service_logs_reply = (\<lambda>n since. []),
      inspect_container_reply = (\<lambda>cid. \<lparr>container_Id = cid\<rparr>),
      copy_from_docker_reply = (\<lambda>cid path. Inr (cid @ '':'' @ path)),
      local_mktime = utc_mktime\<rparr>"

definition demo_kwargs :: kwargs where
  "demo_kwargs =
     \<lparr>kw_auto_remove = ''never'', kw_retrieve_output = False,
      kw_retrieve_output_path = ''/tmp/out'', kw_tty = False, kw_args = None,
      kw_enable_logging = False, kw_logging_driver = None, kw_logging_driver_opts = None\<rparr>"

definition demo_operator :: operator where
  "demo_operator =
     \<lparr>auto_remove = ''never'', retrieve_output = False, retrieve_output_path = ''/tmp/out'',
      tty = False, args = None, enable_logging = False, logging_driver = None,
      logging_driver_opts = None, log_driver_config = None, service = None, tasks = [],
      containers = []\<rparr>"

definition started :: operator where
  "started = demo_operator\<lparr>service := Some \<lparr>service_ID = ''svc''\<rparr>\<rparr>"

definition world0 :: world where
  "world0 = \<lparr>calls = [], log_info = []\<rparr>"

text \<open>A client whose copy out of the container \<open>bad\<close> raises an APIError.\<close>

definition flaky_client :: client where
  "flaky_client =
     (demo_client [] (one_task ''complete''))
       \<lparr>copy_from_docker_reply :=
          (\<lambda>cid path. if cid = ''bad'' then Inl APIError else Inr (cid @ '':'' @ path))\<rparr>"






text \<open>
  Argument strings: \<^verbatim>\<open>-c "a b" 'c\d' e\ f\<close>, with both kinds of quotes and
  an escaped space; \<^verbatim>\<open>a 'b\<close>, with a quote left open;
  \<^verbatim>\<open>"a\$b"\<close>, a backslash before a dollar sign between double quotes; and
  \<^verbatim>\<open>a\<close>, a carriage return, \<^verbatim>\<open>b\<close>.
\<close>

definition quoted_args :: string where
  "quoted_args =
     [CHR ''-'', CHR ''c'', CHR '' '', CHR 0x22, CHR ''a'', CHR '' '', CHR ''b'', CHR 0x22,
      CHR '' '', CHR 0x27, CHR ''c'', CHR 0x5C, CHR ''d'', CHR 0x27, CHR '' '',
      CHR ''e'', CHR 0x5C, CHR '' '', CHR ''f'']"

definition open_quote_args :: string where
  "open_quote_args = [CHR ''a'', CHR '' '', CHR 0x27, CHR ''b'']"

definition dollar_args :: string where
  "dollar_args = [CHR 0x22, CHR ''a'', CHR 0x5C, CHR ''$'', CHR ''b'', CHR 0x22]"

definition carriage_return_args :: string where
  "carriage_return_args = [CHR ''a'', CHR 0x0D, CHR ''b'']"

section \<open>Properties of the status checks\<close>

lemma service_status_reply:
  assumes "service self = Some svc"
    and "tasks_reply c (length (filter is_Tasks (calls w))) = t # rest"
  shows "service_status c self w = (Inr (task_State t), record_call (Tasks (service_ID svc)) w)"
  using assms by (simp add: service_status_def cli_tasks_def)

lemma service_status_not_RuntimeError:
  assumes "service self = Some svc"
  shows "fst (service_status c self w) \<noteq> Inl (RuntimeError m)"
  using assms by (simp add: service_status_def cli_tasks_def split: list.splits)

lemma has_service_terminated_not_RuntimeError:
  assumes "service self = Some svc"
  shows "fst (has_service_terminated c self w) \<noteq> Inl (RuntimeError m)"
  using service_status_not_RuntimeError [OF assms, of c w m]
  by (auto simp add: has_service_terminated_def split: prod.splits sum.splits)

lemma log_lines_error:
  "log_lines ls b w = (Inl e, w') \<Longrightarrow> e = AttributeError"
  by (induction ls arbitrary: b w) (auto split: option.splits)

lemma strptime_error:
  "strptime s = Inl e \<Longrightarrow> \<exists>m. e = ValueError m"
  by (auto simp add: strptime_def no_match_def split: if_splits list.splits option.splits prod.splits)

lemma datetime_timestamp_error:
  "datetime_timestamp c dt = Inl e \<Longrightarrow> e \<noteq> RuntimeError m"
proof -
  have "exn_of_time_error x \<noteq> RuntimeError m" for x
    by (cases x) simp_all
  then show "datetime_timestamp c dt = Inl e \<Longrightarrow> e \<noteq> RuntimeError m"
    by (auto simp add: datetime_timestamp_def split: sum.splits)
qed

lemma stream_new_logs_not_RuntimeError:
  "stream_new_logs c self l t w = (Inl e, w') \<Longrightarrow> e \<noteq> RuntimeError m"
  by (auto simp add: stream_new_logs_def Let_def split: option.splits prod.splits sum.splits if_splits
      dest: log_lines_error strptime_error datetime_timestamp_error)

lemma has_service_terminated_error:
  assumes "service self = Some svc" and "has_service_terminated c self w = (Inl e, w')"
  shows "e \<noteq> RuntimeError m"
  using has_service_terminated_not_RuntimeError [OF assms(1), of c w m] assms(2) by auto

lemma stream_loop_not_RuntimeError:
  assumes "stream_loop c self l t w = Some y" and "service self = Some svc"
  shows "fst y \<noteq> Inl (RuntimeError m)"
proof -
  have "service self = Some svc \<longrightarrow> fst y \<noteq> Inl (RuntimeError m)"
  proof (rule stream_loop.raw_induct
      [where P = "\<lambda>c self l t w y. service self = Some svc \<longrightarrow> fst y \<noteq> Inl (RuntimeError m)",
        OF _ assms(1)])
    fix loop :: "client \<Rightarrow> operator \<Rightarrow> string \<Rightarrow> cursor \<Rightarrow> world \<Rightarrow> ((exn + unit) \<times> world) option"
      and c :: client and self :: operator and l :: string and t :: cursor and w :: world
      and y :: "(exn + unit) \<times> world"
    assume IH: "\<And>c self l t w y. loop c self l t w = Some y \<Longrightarrow>
                  service self = Some svc \<longrightarrow> fst y \<noteq> Inl (RuntimeError m)"
    assume step: "(case has_service_terminated c self w of
        (Inl e, w1) \<Rightarrow> Some (Inl e, w1)
      | (Inr terminated, w1) \<Rightarrow>
          if terminated then Some (Inr (), w1)
          else (case stream_new_logs c self l t w1 of
                  (Inl e, w2) \<Rightarrow> Some (Inl e, w2)
                | (Inr (line, ts), w2) \<Rightarrow> loop c self line ts w2)) = Some y"
    show "service self = Some svc \<longrightarrow> fst y \<noteq> Inl (RuntimeError m)"
    proof
      assume svc: "service self = Some svc"
      obtain r w1 where ht: "has_service_terminated c self w = (r, w1)"
        by (cases "has_service_terminated c self w")
      show "fst y \<noteq> Inl (RuntimeError m)"
      proof (cases r)
        case (Inl e)
        with step ht has_service_terminated_error [OF svc, of c w e w1 m]
        show ?thesis by auto
      next
        case (Inr terminated)
        show ?thesis
        proof (cases terminated)
          case True
          with step ht Inr show ?thesis by auto
        next
          case False
          obtain r2 w2 where sn: "stream_new_logs c self l t w1 = (r2, w2)"
            by (cases "stream_new_logs c self l t w1")
          show ?thesis
          proof (cases r2)
            case (Inl e)
            with step ht \<open>r = Inr terminated\<close> False sn
              stream_new_logs_not_RuntimeError [of c self l t w1 e w2 m]
            show ?thesis by auto
          next
            case (Inr p)
            with step ht \<open>r = Inr terminated\<close> False sn
            have "loop c self (fst p) (snd p) w2 = Some y"
              by (cases p) auto
            from IH [OF this] svc show ?thesis by simp
          qed
        qed
      qed
    qed
  qed
  with assms(2) show ?thesis by simp
qed

lemma service_status_head_state:
  "service_status c self w =
     (case service self of
        None \<Rightarrow> (Inl (RuntimeError ''The 'service' should be initialized before!''), w)
      | Some svc \<Rightarrow>
          (case head_state (tasks_reply c (length (filter is_Tasks (calls w)))) of
             None \<Rightarrow> Inl IndexError | Some st \<Rightarrow> Inr st,
           record_call (Tasks (service_ID svc)) w))"
  by (simp add: service_status_def cli_tasks_def head_state_def split: option.splits list.splits)

lemma service_status_cong:
  assumes "\<And>n. head_state (tasks_reply c n) = head_state (tasks_reply c' n)"
  shows "service_status c self w = service_status c' self w"
  by (cases "service self") (simp_all add: service_status_head_state assms)

lemma has_service_terminated_cong:
  assumes "\<And>n. head_state (tasks_reply c n) = head_state (tasks_reply c' n)"
  shows "has_service_terminated c self w = has_service_terminated c' self w"
  by (simp add: has_service_terminated_def service_status_cong [OF assms])

lemma remove_or_fail_cong:
  assumes "\<And>n. head_state (tasks_reply c n) = head_state (tasks_reply c' n)"
  shows "remove_or_fail c self w = remove_or_fail c' self w"
  by (cases "service self") (simp_all add: remove_or_fail_def service_status_cong [OF assms])

lemma poll_until_terminated_transfer:
  assumes same: "\<And>n. head_state (tasks_reply c n) = head_state (tasks_reply c' n)"
    and run: "poll_until_terminated c self w = Some y"
  shows "poll_until_terminated c' self w = Some y"
proof -
  have "c = c \<longrightarrow> poll_until_terminated c' self w = Some y"
  proof (rule poll_until_terminated.raw_induct
      [where P = "\<lambda>d self w y. d = c \<longrightarrow> poll_until_terminated c' self w = Some y",
        OF _ run])
    fix poll :: "client \<Rightarrow> operator \<Rightarrow> world \<Rightarrow> ((exn + unit) \<times> world) option"
      and d :: client and self :: operator and w :: world and y :: "(exn + unit) \<times> world"
    assume IH: "\<And>d self w y. poll d self w = Some y \<Longrightarrow>
                  d = c \<longrightarrow> poll_until_terminated c' self w = Some y"
    assume step: "(case has_service_terminated d self w of
        (Inl e, w1) \<Rightarrow> Some (Inl e, w1)
      | (Inr terminated, w1) \<Rightarrow>
          if terminated
          then (case service_status d self w1 of
                  (Inl e, w2) \<Rightarrow> Some (Inl e, w2)
                | (Inr _, w2) \<Rightarrow> Some (Inr (), w2))
          else poll d self w1) = Some y"
    show "d = c \<longrightarrow> poll_until_terminated c' self w = Some y"
    proof
      assume d: "d = c"
      obtain r w1 where ht: "has_service_terminated c self w = (r, w1)"
        by (cases "has_service_terminated c self w")
      then have ht': "has_service_terminated c' self w = (r, w1)"
        by (simp add: has_service_terminated_cong [OF same])
      show "poll_until_terminated c' self w = Some y"
      proof (cases r)
        case (Inl e)
        with step d ht ht' show ?thesis
          by (subst poll_until_terminated.simps) simp
      next
        case (Inr terminated)
        show ?thesis
        proof (cases terminated)
          case True
          with step d ht ht' Inr show ?thesis
            by (subst poll_until_terminated.simps)
              (simp add: service_status_cong [OF same, symmetric])
        next
          case False
          with step d ht Inr have "poll c self w1 = Some y" by simp
          from IH [OF this] have "poll_until_terminated c' self w1 = Some y" by simp
          with ht' Inr False show ?thesis
            by (subst poll_until_terminated.simps) simp
        qed
      qed
    qed
  qed
  then show ?thesis by simp
qed

lemma poll_until_terminated_cong:
  assumes "\<And>n. head_state (tasks_reply c n) = head_state (tasks_reply c' n)"
  shows "poll_until_terminated c self w = poll_until_terminated c' self w"
proof (cases "poll_until_terminated c self w")
  case (Some y)
  with poll_until_terminated_transfer [OF assms Some] show ?thesis by simp
next
  case None
  show ?thesis
  proof (cases "poll_until_terminated c' self w")
    case (Some y)
    from poll_until_terminated_transfer [OF assms [symmetric] Some] None show ?thesis by simp
  next
    case N: None
    with None show ?thesis by simp
  qed
qed

text \<open>
  C2, as the code has it: on a poll answered with a task list whose first task has state
  \<open>st\<close>, the terminal-state check returns true exactly when \<open>st\<close> is one of
  "complete", "failed", "shutdown", "rejected", "orphaned" and "remove" (the sixth string of
  the code is "remove", not "removed"); "pending" and "running" are not terminal.
\<close>

theorem has_service_terminated_states:
  assumes "service self = Some svc"
    and "tasks_reply c (length (filter is_Tasks (calls w))) = t # rest"
  shows "fst (has_service_terminated c self w) =
           Inr (task_State t \<in> {''complete'', ''failed'', ''shutdown'', ''rejected'',
                                 ''orphaned'', ''remove''})
         \<and> (task_State t \<in> {''pending'', ''running''}
              \<longrightarrow> fst (has_service_terminated c self w) = Inr False)"
  using service_status_reply [OF assms]
  by (auto simp add: has_service_terminated_def)

text \<open>The state "remove" on a concrete poll.\<close>

theorem has_service_terminated_states_witness:
  "service started = Some \<lparr>service_ID = ''svc''\<rparr>
   \<and> tasks_reply (demo_client [] (one_task ''remove'')) (length (filter is_Tasks (calls world0)))
       = \<lparr>task_State = ''remove'', task_ContainerID = Some ''c1''\<rparr> # []
   \<and> fst (has_service_terminated (demo_client [] (one_task ''remove'')) started world0) = Inr True"
  using has_service_terminated_states [of started "\<lparr>service_ID = ''svc''\<rparr>"
      "demo_client [] (one_task ''remove'')" world0
      "\<lparr>task_State = ''remove'', task_ContainerID = Some ''c1''\<rparr>" "[]"]
  by (simp add: started_def demo_operator_def demo_client_def one_task_def scripted_def world0_def)

text \<open>
  C2 as stated fails: a first task in state "removed" is not classified as terminal.
\<close>

theorem removed_is_not_terminal:
  "fst (has_service_terminated (demo_client [] (one_task ''removed'')) started world0) = Inr False"
  by (simp add: has_service_terminated_def service_status_def cli_tasks_def started_def
      demo_operator_def demo_client_def one_task_def scripted_def world0_def)

text \<open>
  C9: with no service handle, the status check and the log streaming raise the
  RuntimeError of the precondition and leave the world as it was, so no client call is
  made; with a handle, neither of them raises a RuntimeError, whatever the client answers
  (the streaming loop may also not return at all).
\<close>

theorem precondition_fail_fast:
  "(service self = None \<longrightarrow>
      service_status c self w =
        (Inl (RuntimeError ''The 'service' should be initialized before!''), w)
      \<and> stream_logs_to_output c self w =
        Some (Inl (RuntimeError ''The 'service' should be initialized before!''), w))
   \<and> (service self \<noteq> None \<longrightarrow>
      fst (service_status c self w) \<noteq> Inl (RuntimeError m)
      \<and> (\<forall>y. stream_logs_to_output c self w = Some y \<longrightarrow> fst y \<noteq> Inl (RuntimeError m)))"
proof (intro conjI impI allI)
  assume "service self = None"
  then show "service_status c self w =
      (Inl (RuntimeError ''The 'service' should be initialized before!''), w)"
    by (simp add: service_status_def)
next
  assume "service self = None"
  then show "stream_logs_to_output c self w =
      Some (Inl (RuntimeError ''The 'service' should be initialized before!''), w)"
    by (simp add: stream_logs_to_output_def)
next
  assume "service self \<noteq> None"
  then obtain svc where "service self = Some svc" by auto
  then show "fst (service_status c self w) \<noteq> Inl (RuntimeError m)"
    by (rule service_status_not_RuntimeError)
next
  fix y
  assume "service self \<noteq> None" and run: "stream_logs_to_output c self w = Some y"
  then obtain svc where svc: "service self = Some svc" by auto
  with run have "stream_loop c self [] Since_0 w = Some y"
    by (simp add: stream_logs_to_output_def)
  from stream_loop_not_RuntimeError [OF this svc] show "fst y \<noteq> Inl (RuntimeError m)" .
qed

text \<open>Both cases on concrete executions; the second one streams until the service completes.\<close>

theorem precondition_fail_fast_witness:
  "service demo_operator = None
   \<and> service_status (demo_client [one_task ''running''] (one_task ''complete'')) demo_operator world0 =
        (Inl (RuntimeError ''The 'service' should be initialized before!''), world0)
   \<and> stream_logs_to_output (demo_client [one_task ''running''] (one_task ''complete'')) demo_operator world0 =
        Some (Inl (RuntimeError ''The 'service' should be initialized before!''), world0)
   \<and> service started \<noteq> None
   \<and> fst (service_status (demo_client [one_task ''running''] (one_task ''complete'')) started world0)
        \<noteq> Inl (RuntimeError ''The 'service' should be initialized before!'')
   \<and> stream_logs_to_output (demo_client [one_task ''running''] (one_task ''complete'')) started world0
        = Some (Inr (), \<lparr>calls = [Tasks ''svc'', Service_logs ''svc'' Since_0, Tasks ''svc''],
                        log_info = []\<rparr>)"
proof -
  have run: "stream_logs_to_output (demo_client [one_task ''running''] (one_task ''complete'')) started world0
        = Some (Inr (), \<lparr>calls = [Tasks ''svc'', Service_logs ''svc'' Since_0, Tasks ''svc''],
                        log_info = []\<rparr>)"
    by (simp add: started_def demo_operator_def stream_logs_to_output_def stream_loop.simps
      has_service_terminated_def service_status_def cli_tasks_def cli_service_logs_def
      stream_new_logs_def drop_logged_def record_call_def demo_client_def one_task_def
      scripted_def world0_def)
  have none: "service demo_operator = None" and some: "service started \<noteq> None"
    by (simp_all add: started_def demo_operator_def)
  from precondition_fail_fast [of demo_operator
      "demo_client [one_task ''running''] (one_task ''complete'')" world0
      "''The 'service' should be initialized before!''"]
    precondition_fail_fast [of started "demo_client [one_task ''running''] (one_task ''complete'')" world0
      "''The 'service' should be initialized before!''"]
    none some run
  show ?thesis by blast
qed

text \<open>
  C10: on a poll answered with a task list whose first task is \<open>t\<close>, the status is the
  state of \<open>t\<close>, the terminal-state check is whether that state is terminal, the polling
  loop goes on exactly when it is not, and the final block raises exactly when it is not
  "complete", removing the service under "force" in that case and under "success" or
  "force" otherwise. None of this reads the other tasks: two clients whose task lists
  agree, poll by poll, on being empty and on the state of their first task are
  indistinguishable to the status check, to the terminal-state check, to the polling loop
  and to the final block.
\<close>

theorem status_from_first_task_only:
  assumes "\<forall>n. head_state (tasks_reply c n) = head_state (tasks_reply c' n)"
  shows "service_status c self w = service_status c' self w
       \<and> has_service_terminated c self w = has_service_terminated c' self w
       \<and> poll_until_terminated c self w = poll_until_terminated c' self w
       \<and> remove_or_fail c self w = remove_or_fail c' self w
       \<and> (service self = Some svc \<and> tasks_reply c (polls w) = t # rest \<longrightarrow>
            service_status c self w
              = (Inr (task_State t), record_call (Tasks (service_ID svc)) w)
          \<and> has_service_terminated c self w
              = (Inr (terminal (task_State t)), record_call (Tasks (service_ID svc)) w)
          \<and> poll_until_terminated c self w
              = (if terminal (task_State t)
                 then (case service_status c self (record_call (Tasks (service_ID svc)) w) of
                         (Inl e, w2) \<Rightarrow> Some (Inl e, w2)
                       | (Inr _, w2) \<Rightarrow> Some (Inr (), w2))
                 else poll_until_terminated c self (record_call (Tasks (service_ID svc)) w))
          \<and> remove_or_fail c self w
              = (if task_State t \<noteq> ''complete''
                 then (Inl (AirflowException (Service_did_not_complete svc)),
                       if auto_remove self = ''force''
                       then record_call (Remove_service (service_ID svc))
                              (record_call (Tasks (service_ID svc)) w)
                       else record_call (Tasks (service_ID svc)) w)
                 else (Inr Py_None,
                       if auto_remove self \<in> {''success'', ''force''}
                       then record_call (Remove_service (service_ID svc))
                              (record_call (Tasks (service_ID svc)) w)
                       else record_call (Tasks (service_ID svc)) w)))"
proof -
  have positive: "service_status c self w
              = (Inr (task_State t), record_call (Tasks (service_ID svc)) w)
          \<and> has_service_terminated c self w
              = (Inr (terminal (task_State t)), record_call (Tasks (service_ID svc)) w)
          \<and> poll_until_terminated c self w
              = (if terminal (task_State t)
                 then (case service_status c self (record_call (Tasks (service_ID svc)) w) of
                         (Inl e, w2) \<Rightarrow> Some (Inl e, w2)
                       | (Inr _, w2) \<Rightarrow> Some (Inr (), w2))
                 else poll_until_terminated c self (record_call (Tasks (service_ID svc)) w))
          \<and> remove_or_fail c self w
              = (if task_State t \<noteq> ''complete''
                 then (Inl (AirflowException (Service_did_not_complete svc)),
                       if auto_remove self = ''force''
                       then record_call (Remove_service (service_ID svc))
                              (record_call (Tasks (service_ID svc)) w)
                       else record_call (Tasks (service_ID svc)) w)
                 else (Inr Py_None,
                       if auto_remove self \<in> {''success'', ''force''}
                       then record_call (Remove_service (service_ID svc))
                              (record_call (Tasks (service_ID svc)) w)
                       else record_call (Tasks (service_ID svc)) w))"
    if svc: "service self = Some svc" and reply: "tasks_reply c (polls w) = t # rest"
  proof -
    from reply have reply': "tasks_reply c (length (filter is_Tasks (calls w))) = t # rest"
      by (simp add: polls_def)
    note st = service_status_reply [OF svc reply']
    have ht: "has_service_terminated c self w
        = (Inr (terminal (task_State t)), record_call (Tasks (service_ID svc)) w)"
      by (simp add: has_service_terminated_def st terminal_def)
    have poll: "poll_until_terminated c self w
              = (if terminal (task_State t)
                 then (case service_status c self (record_call (Tasks (service_ID svc)) w) of
                         (Inl e, w2) \<Rightarrow> Some (Inl e, w2)
                       | (Inr _, w2) \<Rightarrow> Some (Inr (), w2))
                 else poll_until_terminated c self (record_call (Tasks (service_ID svc)) w))"
      by (subst poll_until_terminated.simps) (simp add: ht)
    have rf: "remove_or_fail c self w
              = (if task_State t \<noteq> ''complete''
                 then (Inl (AirflowException (Service_did_not_complete svc)),
                       if auto_remove self = ''force''
                       then record_call (Remove_service (service_ID svc))
                              (record_call (Tasks (service_ID svc)) w)
                       else record_call (Tasks (service_ID svc)) w)
                 else (Inr Py_None,
                       if auto_remove self \<in> {''success'', ''force''}
                       then record_call (Remove_service (service_ID svc))
                              (record_call (Tasks (service_ID svc)) w)
                       else record_call (Tasks (service_ID svc)) w))"
      by (simp add: remove_or_fail_def svc st cli_remove_service_def)
    from st ht poll rf show ?thesis by (intro conjI)
  qed
  have same: "head_state (tasks_reply c n) = head_state (tasks_reply c' n)" for n
    using assms by simp
  show ?thesis
    using service_status_cong [of c c' self w, OF same]
      has_service_terminated_cong [of c c' self w, OF same]
      poll_until_terminated_cong [of c c' self w, OF same]
      remove_or_fail_cong [of c c' self w, OF same] positive
    by blast
qed

text \<open>
  A failed first task followed by a running second one, under the policy "force": the
  status is "failed", the run raises and the service is removed, as with the first task
  alone.
\<close>

theorem status_from_first_task_only_witness:
  "(\<forall>n. head_state (tasks_reply (demo_client [] (one_task ''failed'' @ one_task ''running'')) n)
        = head_state (tasks_reply (demo_client [] (one_task ''failed'')) n))
   \<and> service (started\<lparr>auto_remove := ''force''\<rparr>) = Some \<lparr>service_ID = ''svc''\<rparr>
   \<and> tasks_reply (demo_client [] (one_task ''failed'' @ one_task ''running'')) (polls world0)
       = \<lparr>task_State = ''failed'', task_ContainerID = Some ''c1''\<rparr> # one_task ''running''
   \<and> service_status (demo_client [] (one_task ''failed'' @ one_task ''running''))
         (started\<lparr>auto_remove := ''force''\<rparr>) world0
       = (Inr ''failed'', \<lparr>calls = [Tasks ''svc''], log_info = []\<rparr>)
   \<and> has_service_terminated (demo_client [] (one_task ''failed'' @ one_task ''running''))
         (started\<lparr>auto_remove := ''force''\<rparr>) world0
       = (Inr True, \<lparr>calls = [Tasks ''svc''], log_info = []\<rparr>)
   \<and> remove_or_fail (demo_client [] (one_task ''failed'' @ one_task ''running''))
         (started\<lparr>auto_remove := ''force''\<rparr>) world0
       = (Inl (AirflowException (Service_did_not_complete \<lparr>service_ID = ''svc''\<rparr>)),
          \<lparr>calls = [Tasks ''svc'', Remove_service ''svc''], log_info = []\<rparr>)
   \<and> remove_or_fail (demo_client [] (one_task ''failed''))
         (started\<lparr>auto_remove := ''force''\<rparr>) world0
       = remove_or_fail (demo_client [] (one_task ''failed'' @ one_task ''running''))
         (started\<lparr>auto_remove := ''force''\<rparr>) world0
   \<and> poll_until_terminated (demo_client [] (one_task ''failed''))
         (started\<lparr>auto_remove := ''force''\<rparr>) world0
       = poll_until_terminated (demo_client [] (one_task ''failed'' @ one_task ''running''))
         (started\<lparr>auto_remove := ''force''\<rparr>) world0"
proof -
  have same: "\<forall>n. head_state (tasks_reply (demo_client [] (one_task ''failed'' @ one_task ''running'')) n)
        = head_state (tasks_reply (demo_client [] (one_task ''failed'')) n)"
    by (simp add: head_state_def demo_client_def scripted_def one_task_def)
  have svc: "service (started\<lparr>auto_remove := ''force''\<rparr>) = Some \<lparr>service_ID = ''svc''\<rparr>"
    by (simp add: started_def demo_operator_def)
  have reply: "tasks_reply (demo_client [] (one_task ''failed'' @ one_task ''running'')) (polls world0)
       = \<lparr>task_State = ''failed'', task_ContainerID = Some ''c1''\<rparr> # one_task ''running''"
    by (simp add: demo_client_def scripted_def one_task_def)
  have t: "terminal ''failed''" "auto_remove (started\<lparr>auto_remove := ''force''\<rparr>) = ''force''"
    by (simp_all add: terminal_def)
  have w: "record_call (Tasks ''svc'') world0 = \<lparr>calls = [Tasks ''svc''], log_info = []\<rparr>"
    "record_call (Remove_service ''svc'') \<lparr>calls = [Tasks ''svc''], log_info = []\<rparr>
       = \<lparr>calls = [Tasks ''svc'', Remove_service ''svc''], log_info = []\<rparr>"
    by (simp_all add: record_call_def world0_def)
  from svc reply status_from_first_task_only [OF same, of "started\<lparr>auto_remove := ''force''\<rparr>" world0
      "\<lparr>service_ID = ''svc''\<rparr>" "\<lparr>task_State = ''failed'', task_ContainerID = Some ''c1''\<rparr>"
      "one_task ''running''"]
  have "service_status (demo_client [] (one_task ''failed'' @ one_task ''running''))
         (started\<lparr>auto_remove := ''force''\<rparr>) world0
       = (Inr ''failed'', \<lparr>calls = [Tasks ''svc''], log_info = []\<rparr>)"
    and "has_service_terminated (demo_client [] (one_task ''failed'' @ one_task ''running''))
         (started\<lparr>auto_remove := ''force''\<rparr>) world0
       = (Inr True, \<lparr>calls = [Tasks ''svc''], log_info = []\<rparr>)"
    and "remove_or_fail (demo_client [] (one_task ''failed'' @ one_task ''running''))
         (started\<lparr>auto_remove := ''force''\<rparr>) world0
       = (Inl (AirflowException (Service_did_not_complete \<lparr>service_ID = ''svc''\<rparr>)),
          \<lparr>calls = [Tasks ''svc'', Remove_service ''svc''], log_info = []\<rparr>)"
    and "remove_or_fail (demo_client [] (one_task ''failed''))
         (started\<lparr>auto_remove := ''force''\<rparr>) world0
       = remove_or_fail (demo_client [] (one_task ''failed'' @ one_task ''running''))
         (started\<lparr>auto_remove := ''force''\<rparr>) world0"
    and "poll_until_terminated (demo_client [] (one_task ''failed''))
         (started\<lparr>auto_remove := ''force''\<rparr>) world0
       = poll_until_terminated (demo_client [] (one_task ''failed'' @ one_task ''running''))
         (started\<lparr>auto_remove := ''force''\<rparr>) world0"
    by (simp_all add: t w polls_def) metis+
  with same svc reply show ?thesis by blast
qed

section \<open>Properties of the constructor\<close>

text \<open>
  C3, as the code has it: a logging driver that is neither empty nor one of "json-file" and
  "gelf" makes the constructor raise its AirflowException; a supported one, an absent one
  and the empty string make it succeed, with no service created. In every case the world
  is returned as it was received: no client call is made.
\<close>

theorem init_logging_driver:
  "(d \<noteq> [] \<and> d \<notin> {''json-file'', ''gelf''} \<longrightarrow>
      init (kw\<lparr>kw_logging_driver := Some d\<rparr>) w
        = (Inl (AirflowException (Invalid_logging_driver d)), w))
   \<and> (d \<in> {''json-file'', ''gelf''} \<longrightarrow>
      (\<exists>self. init (kw\<lparr>kw_logging_driver := Some d\<rparr>) w = (Inr self, w)
         \<and> service self = None \<and> logging_driver self = Some d
         \<and> log_driver_config self = Some (d, kw_logging_driver_opts kw)))
   \<and> (absent \<in> {None, Some []} \<longrightarrow>
      (\<exists>self. init (kw\<lparr>kw_logging_driver := absent\<rparr>) w = (Inr self, w)
         \<and> service self = None \<and> log_driver_config self = None))"
  by (auto simp add: init_def supported_logging_drivers_def Let_def)

text \<open>An unsupported driver, a supported one and an absent one.\<close>

theorem init_logging_driver_witness:
  "''syslog'' \<noteq> [] \<and> ''syslog'' \<notin> {''json-file'', ''gelf''}
   \<and> init (demo_kwargs\<lparr>kw_logging_driver := Some ''syslog''\<rparr>) world0
        = (Inl (AirflowException (Invalid_logging_driver ''syslog'')), world0)
   \<and> ''gelf'' \<in> {''json-file'', ''gelf''}
   \<and> init (demo_kwargs\<lparr>kw_logging_driver := Some ''gelf''\<rparr>) world0
        = (Inr (demo_operator\<lparr>logging_driver := Some ''gelf'',
                               log_driver_config := Some (''gelf'', None)\<rparr>), world0)
   \<and> init (demo_kwargs\<lparr>kw_logging_driver := None\<rparr>) world0 = (Inr demo_operator, world0)"
  using init_logging_driver [of "''syslog''" demo_kwargs world0 None]
    init_logging_driver [of "''gelf''" demo_kwargs world0 None]
  by (simp add: init_def supported_logging_drivers_def demo_kwargs_def demo_operator_def)

text \<open>
  C3 as stated fails: the empty string is outside the supported set, and construction
  succeeds.
\<close>

theorem empty_logging_driver_accepted:
  "[] \<notin> set supported_logging_drivers
   \<and> init (demo_kwargs\<lparr>kw_logging_driver := Some []\<rparr>) world0
        = (Inr (demo_operator\<lparr>logging_driver := Some []\<rparr>), world0)"
  by (simp add: init_def supported_logging_drivers_def demo_kwargs_def demo_operator_def)

section \<open>Properties of result retrieval\<close>

lemma copy_all_success:
  "map (\<lambda>k. copy_from_docker_reply c (container_Id k) path) ks = map Inr vs \<Longrightarrow>
   copy_all c path ks acc w =
     (Inr (acc @ vs), w\<lparr>calls := calls w @ map (\<lambda>k. Copy_from_docker (container_Id k) path) ks\<rparr>)"
proof (induction ks arbitrary: vs acc w)
  case Nil
  then show ?case by simp
next
  case (Cons k ks)
  then obtain v vs' where vs: "vs = v # vs'" by (cases vs) auto
  with Cons.prems have k: "copy_from_docker_reply c (container_Id k) path = Inr v"
    and rest: "map (\<lambda>k. copy_from_docker_reply c (container_Id k) path) ks = map Inr vs'"
    by auto
  show ?case
    by (simp add: copy_from_docker_def k Cons.IH [OF rest] vs record_call_def)
qed

lemma copy_all_failure:
  "map (\<lambda>k. copy_from_docker_reply c (container_Id k) path) pre = map Inr vs \<Longrightarrow>
   copy_from_docker_reply c (container_Id k) path = Inl e \<Longrightarrow>
   copy_all c path (pre @ k # post) acc w =
     (Inl e, w\<lparr>calls := calls w @ map (\<lambda>k. Copy_from_docker (container_Id k) path) (pre @ [k])\<rparr>)"
proof (induction pre arbitrary: vs acc w)
  case Nil
  then show ?case by (simp add: copy_from_docker_def record_call_def)
next
  case (Cons p pre)
  then obtain v vs' where vs: "vs = v # vs'" by (cases vs) auto
  with Cons.prems have p: "copy_from_docker_reply c (container_Id p) path = Inr v"
    and rest: "map (\<lambda>k. copy_from_docker_reply c (container_Id k) path) pre = map Inr vs'"
    by auto
  show ?case
    by (simp add: copy_from_docker_def p Cons.IH [OF rest Cons.prems(2)] record_call_def)
qed

text \<open>
  C4: with exactly one harvested container whose copy succeeds, the result is the copied
  harvest order, copied in that order; and when the copies succeed up to one that raises an
  APIError, the result is None and nothing is raised.
\<close>

theorem attempt_to_retrieve_results_cases:
  assumes "path = retrieve_output_path self"
  shows "(containers self = [k] \<and> copy_from_docker_reply c (container_Id k) path = Inr v
            \<longrightarrow> fst (attempt_to_retrieve_results c self w) = Inr (Value v))
       \<and> (1 < length (containers self)
            \<and> map (\<lambda>k. copy_from_docker_reply c (container_Id k) path) (containers self) = map Inr vs
            \<longrightarrow> attempt_to_retrieve_results c self w =
                  (Inr (Values vs),
                   w\<lparr>calls := calls w
                       @ map (\<lambda>k. Copy_from_docker (container_Id k) path) (containers self)\<rparr>))
       \<and> (containers self = pre @ failing # post
            \<and> map (\<lambda>k. copy_from_docker_reply c (container_Id k) path) pre = map Inr vs'
            \<and> copy_from_docker_reply c (container_Id failing) path = Inl APIError
            \<longrightarrow> fst (attempt_to_retrieve_results c self w) = Inr Py_None)"
proof (intro conjI impI)
  assume "containers self = [k] \<and> copy_from_docker_reply c (container_Id k) path = Inr v"
  then show "fst (attempt_to_retrieve_results c self w) = Inr (Value v)"
    using assms by (simp add: attempt_to_retrieve_results_def copy_from_docker_def)
next
  assume a: "1 < length (containers self)
    \<and> map (\<lambda>k. copy_from_docker_reply c (container_Id k) path) (containers self) = map Inr vs"
  then have "length vs = length (containers self)"
    by (metis length_map)
  with a have "\<not> (\<exists>x. vs = [x])" by auto
  then have "(case vs of [x] \<Rightarrow> (Inr (Value x), w') | _ \<Rightarrow> (Inr (Values vs), w'))
      = (Inr (Values vs), w')" for w' :: world
    by (auto split: list.splits)
  with a copy_all_success [of c path "containers self" vs "[]" w]
  show "attempt_to_retrieve_results c self w =
      (Inr (Values vs),
       w\<lparr>calls := calls w @ map (\<lambda>k. Copy_from_docker (container_Id k) path) (containers self)\<rparr>)"
    using assms by (simp add: attempt_to_retrieve_results_def)
next
  assume "containers self = pre @ failing # post
    \<and> map (\<lambda>k. copy_from_docker_reply c (container_Id k) path) pre = map Inr vs'
    \<and> copy_from_docker_reply c (container_Id failing) path = Inl APIError"
  with copy_all_failure [of c path pre vs' failing APIError post "[]" w]
  show "fst (attempt_to_retrieve_results c self w) = Inr Py_None"
    using assms by (simp add: attempt_to_retrieve_results_def)
qed

text \<open>One container, two containers, and three containers of which the second fails.\<close>

theorem attempt_to_retrieve_results_cases_witness:
  "containers (started\<lparr>containers := [\<lparr>container_Id = ''c1''\<rparr>]\<rparr>) = [\<lparr>container_Id = ''c1''\<rparr>]
   \<and> copy_from_docker_reply flaky_client ''c1'' ''/tmp/out'' = Inr ''c1:/tmp/out''
   \<and> fst (attempt_to_retrieve_results flaky_client
          (started\<lparr>containers := [\<lparr>container_Id = ''c1''\<rparr>]\<rparr>) world0) = Inr (Value ''c1:/tmp/out'')
   \<and> attempt_to_retrieve_results flaky_client
          (started\<lparr>containers := [\<lparr>container_Id = ''c1''\<rparr>, \<lparr>container_Id = ''c2''\<rparr>]\<rparr>) world0
       = (Inr (Values [''c1:/tmp/out'', ''c2:/tmp/out'']),
          \<lparr>calls = [Copy_from_docker ''c1'' ''/tmp/out'', Copy_from_docker ''c2'' ''/tmp/out''],
           log_info = []\<rparr>)
   \<and> copy_from_docker_reply flaky_client ''bad'' ''/tmp/out'' = Inl APIError
   \<and> fst (attempt_to_retrieve_results flaky_client
          (started\<lparr>containers := [\<lparr>container_Id = ''c1''\<rparr>, \<lparr>container_Id = ''bad''\<rparr>,
                                  \<lparr>container_Id = ''c2''\<rparr>]\<rparr>) world0) = Inr Py_None"
  using attempt_to_retrieve_results_cases [of "''/tmp/out''"
      "started\<lparr>containers := [\<lparr>container_Id = ''c1''\<rparr>]\<rparr>" "\<lparr>container_Id = ''c1''\<rparr>"
      flaky_client "''c1:/tmp/out''" world0]
    attempt_to_retrieve_results_cases [of "''/tmp/out''"
      "started\<lparr>containers := [\<lparr>container_Id = ''c1''\<rparr>, \<lparr>container_Id = ''c2''\<rparr>]\<rparr>" _
      flaky_client _ world0 "[''c1:/tmp/out'', ''c2:/tmp/out'']"]
    attempt_to_retrieve_results_cases [of "''/tmp/out''"
      "started\<lparr>containers := [\<lparr>container_Id = ''c1''\<rparr>, \<lparr>container_Id = ''bad''\<rparr>,
                                  \<lparr>container_Id = ''c2''\<rparr>]\<rparr>" _
      flaky_client _ world0 _ "[\<lparr>container_Id = ''c1''\<rparr>]" "\<lparr>container_Id = ''bad''\<rparr>"
      "[\<lparr>container_Id = ''c2''\<rparr>]" "[''c1:/tmp/out'']"]
  by (simp add: started_def demo_operator_def flaky_client_def demo_client_def world0_def)

section \<open>Properties of the argument normalisation\<close>

lemma split_words_Nil: "split_words [] = []"
  by (subst split_words.simps) simp

lemma split_words_space: "is_space c \<Longrightarrow> split_words (c # cs) = split_words cs"
  by (subst split_words.simps, subst (2) split_words.simps) simp

lemma split_words_word:
  "\<not> is_space c \<Longrightarrow>
   split_words (c # cs) =
     (c # takeWhile (\<lambda>c. \<not> is_space c) cs) # split_words (dropWhile (\<lambda>c. \<not> is_space c) cs)"
  by (subst split_words.simps) simp

lemma shlex_read_plain:
  "plain cs \<Longrightarrow>
   shlex_read S_ws False [] cs = Inr (split_words cs)
   \<and> (\<forall>token. token \<noteq> [] \<longrightarrow>
        shlex_read S_word False token cs =
          Inr ((token @ takeWhile (\<lambda>c. \<not> is_space c) cs)
               # split_words (dropWhile (\<lambda>c. \<not> is_space c) cs)))"
proof (induction cs)
  case Nil
  then show ?case by (simp add: split_words_Nil)
next
  case (Cons c cs)
  then have c: "c \<notin> set shlex_quotes" "c \<noteq> shlex_escape" and cs: "plain cs"
    by (simp_all add: plain_def)
  note IH = Cons.IH [OF cs]
  show ?case
  proof (cases "is_space c")
    case True
    with c IH show ?thesis
      by (simp add: is_space_def [symmetric] split_words_space emit_def)
  next
    case False
    with c IH show ?thesis
      by (simp add: is_space_def [symmetric] split_words_word)
  qed
qed

lemma shlex_split_plain: "plain s \<Longrightarrow> shlex_split s = Inr (split_words s)"
  by (simp add: shlex_split_def shlex_read_plain)

lemma words_of_emit: "words_of (emit t r) = map_option (\<lambda>ws. t # ws) (words_of r)"
  by (simp add: words_of_def emit_def split: sum.splits)

lemma posix_safe_tl: "posix_safe (c # cs) \<Longrightarrow> posix_safe cs \<and> c \<noteq> CHR 0x0D"
  by (cases cs) simp_all

lemma posix_safe_backslash:
  "posix_safe (CHR 0x5C # d # ds) \<Longrightarrow>
   d \<noteq> CHR ''$'' \<and> d \<noteq> CHR 0x60 \<and> d \<noteq> CHR 0x0A \<and> d \<noteq> CHR 0x0D \<and> posix_safe ds"
  by (cases ds) simp_all

lemma begun_word_of: "begun (word_of q t) = t"
  by (simp add: begun_def word_of_def)

text \<open>
  On a safe string the state machine of \<^verbatim>\<open>shlex\<close> and the rules of the shell agree,
  state by state: outside a word, inside a word, between single and between double quotes.
\<close>

lemma shlex_read_posix:
  "posix_safe cs \<Longrightarrow>
     words_of (shlex_read S_ws False [] cs) = posix_unquoted None cs
   \<and> (\<forall>q t. words_of (shlex_read S_word q t cs) = posix_unquoted (word_of q t) cs)
   \<and> (\<forall>q t. words_of (shlex_read (S_quote CHR 0x27) q t cs) = posix_single t cs)
   \<and> (\<forall>q t. words_of (shlex_read (S_quote CHR 0x22) q t cs) = posix_double t cs)"
proof (induction "length cs" arbitrary: cs rule: less_induct)
  case less
  show ?case
  proof (cases cs)
    case Nil
    then show ?thesis
      by (simp add: words_of_def word_of_def)
  next
    case (Cons c cs')
    with less.prems have safe': "posix_safe cs'" and cr: "c \<noteq> CHR 0x0D"
      using posix_safe_tl by blast+
    have "length cs' < length cs"
      by (simp add: Cons)
    from less.hyps [OF this safe']
    have IH1: "words_of (shlex_read S_ws False [] cs') = posix_unquoted None cs'"
      "\<And>q t. words_of (shlex_read S_word q t cs') = posix_unquoted (word_of q t) cs'"
      "\<And>q t. words_of (shlex_read (S_quote CHR 0x27) q t cs') = posix_single t cs'"
      "\<And>q t. words_of (shlex_read (S_quote CHR 0x22) q t cs') = posix_double t cs'"
      by blast+
    show ?thesis
    proof (cases "c = CHR 0x5C")
      case False
      note nb = this
      have ws: "c \<in> set shlex_whitespace \<longleftrightarrow> c \<in> set posix_blanks"
        using cr by (auto simp add: shlex_whitespace_def posix_blanks_def)
      have qs: "c \<in> set shlex_quotes \<longleftrightarrow> c = CHR 0x27 \<or> c = CHR 0x22"
        by (auto simp add: shlex_quotes_def)
      have bq: "c \<in> set posix_blanks \<Longrightarrow> c \<noteq> CHR 0x27 \<and> c \<noteq> CHR 0x22"
        by (auto simp add: posix_blanks_def)
      have a: "words_of (shlex_read S_ws False [] (c # cs')) = posix_unquoted None (c # cs')"
        using nb IH1 bq
        by (simp add: ws qs shlex_escape_def word_of_def begun_def)
      have b: "words_of (shlex_read S_word q t (c # cs')) = posix_unquoted (word_of q t) (c # cs')"
        for q t
        using nb IH1 bq
        by (simp add: ws qs shlex_escape_def words_of_emit begun_word_of)
          (simp add: word_of_def)
      have c: "words_of (shlex_read (S_quote CHR 0x27) q t (c # cs')) = posix_single t (c # cs')"
        for q t
        using nb IH1
        by (simp add: shlex_escape_def shlex_escapedquotes_def word_of_def)
      have e: "words_of (shlex_read (S_quote CHR 0x22) q t (c # cs')) = posix_double t (c # cs')"
        for q t
        using nb IH1
        by (simp add: shlex_escape_def shlex_escapedquotes_def word_of_def)
      from a b c e show ?thesis
        unfolding Cons by blast
    next
      case bs: True
      show ?thesis
      proof (cases cs')
        case Nil
        with bs IH1 show ?thesis
          unfolding Cons
          by (simp add: shlex_whitespace_def shlex_quotes_def shlex_escape_def
            shlex_escapedquotes_def posix_blanks_def words_of_def)
      next
        case (Cons d ds)
        have "posix_safe (CHR 0x5C # d # ds)"
          using less.prems unfolding \<open>cs = c # cs'\<close> Cons bs .
        from posix_safe_backslash [OF this]
        have d: "d \<noteq> CHR ''$''" "d \<noteq> CHR 0x60" "d \<noteq> CHR 0x0A" and safe2: "posix_safe ds"
          by blast+
        have "length ds < length cs"
          by (simp add: \<open>cs = c # cs'\<close> Cons)
        from less.hyps [OF this safe2]
        have IH2:
          "\<And>q t. words_of (shlex_read S_word q t ds) = posix_unquoted (word_of q t) ds"
          "\<And>q t. words_of (shlex_read (S_quote CHR 0x22) q t ds) = posix_double t ds"
          by blast+
        have a: "words_of (shlex_read S_ws False [] (CHR 0x5C # d # ds))
            = posix_unquoted None (CHR 0x5C # d # ds)"
          using d IH2(1) [of False "[d]"]
          by (simp add: shlex_whitespace_def shlex_quotes_def shlex_escape_def
              posix_blanks_def word_of_def begun_def)
        have b: "words_of (shlex_read S_word q t (CHR 0x5C # d # ds))
            = posix_unquoted (word_of q t) (CHR 0x5C # d # ds)" for q t
          using d IH2(1) [of q "t @ [d]"]
          by (simp add: shlex_whitespace_def shlex_quotes_def shlex_escape_def
              posix_blanks_def begun_word_of) (simp add: word_of_def)
        have c: "words_of (shlex_read (S_quote CHR 0x27) q t (CHR 0x5C # d # ds))
            = posix_single t (CHR 0x5C # d # ds)" for q t
          using IH1(3) [of True "t @ [CHR 0x5C]"] Cons
          by (simp add: shlex_escape_def shlex_escapedquotes_def)
        have e: "words_of (shlex_read (S_quote CHR 0x22) q t (CHR 0x5C # d # ds))
            = posix_double t (CHR 0x5C # d # ds)" for q t
          using d
          by (simp add: shlex_escape_def shlex_escapedquotes_def IH2(2))
        from a b c e show ?thesis
          unfolding \<open>cs = c # cs'\<close> Cons bs by blast
      qed
    qed
  qed
qed

lemma shlex_split_posix: "posix_safe s \<Longrightarrow> words_of (shlex_split s) = posix_split s"
  by (simp add: shlex_split_def posix_split_def shlex_read_posix)

lemma emit_error: "emit t r = Inl e \<Longrightarrow> r = Inl e"
  by (simp add: emit_def split: sum.splits)

lemma shlex_read_error: "shlex_read st q t cs = Inl e \<Longrightarrow> \<exists>m. e = ValueError m"
  by (induction st q t cs rule: shlex_read.induct)
    (auto dest!: emit_error split: if_splits escapedstate.splits)

text \<open>
  C8: None stays None and a list of arguments is returned as it is. A string is split by
  \<^verbatim>\<open>shlex.split\<close>: "--flag value" gives the two words; a string with no quote and
  no backslash gives its maximal runs of characters that are not a space, a tab, a carriage
  return or a newline; and a string with no carriage return and no backslash directly
  before a dollar sign, a backquote or a newline gives the words the quoting rules of the
  POSIX shell give, and raises a ValueError when those rules find an open quote or a
  trailing backslash.
\<close>

theorem format_args_cases:
  "format_args None = Inr None
   \<and> format_args (Some (Args_list xs)) = Inr (Some xs)
   \<and> format_args (Some (Args_str ''--flag value'')) = Inr (Some [''--flag'', ''value''])
   \<and> (plain s \<longrightarrow> format_args (Some (Args_str s)) = Inr (Some (split_words s)))
   \<and> (posix_safe s \<longrightarrow>
        (case posix_split s of
           Some ws \<Rightarrow> format_args (Some (Args_str s)) = Inr (Some ws)
         | None \<Rightarrow> (\<exists>m. format_args (Some (Args_str s)) = Inl (ValueError m))))"
proof -
  have flag: "format_args (Some (Args_str ''--flag value'')) = Inr (Some [''--flag'', ''value''])"
    by (simp add: format_args_def shlex_split_def shlex_whitespace_def shlex_quotes_def
        shlex_escape_def emit_def)
  have posix: "(case posix_split s of
           Some ws \<Rightarrow> format_args (Some (Args_str s)) = Inr (Some ws)
         | None \<Rightarrow> (\<exists>m. format_args (Some (Args_str s)) = Inl (ValueError m)))"
    if "posix_safe s"
  proof (cases "shlex_split s")
    case (Inl e)
    then obtain m where "e = ValueError m"
      using shlex_read_error [of S_ws False "[]" s e] by (auto simp add: shlex_split_def)
    with Inl shlex_split_posix [OF that, symmetric] show ?thesis
      by (simp add: words_of_def format_args_def)
  next
    case (Inr ws)
    with shlex_split_posix [OF that, symmetric] show ?thesis
      by (simp add: words_of_def format_args_def)
  qed
  from flag posix show ?thesis
    by (simp add: format_args_def shlex_split_plain)
qed

text \<open>
  A string with two spaces between its words; a list with a space inside a word; a string
  with both kinds of quotes and an escaped space; and a string with a quote left open.
\<close>

theorem format_args_cases_witness:
  "plain ''-c  echo''
   \<and> split_words ''-c  echo'' = [''-c'', ''echo'']
   \<and> format_args (Some (Args_str ''-c  echo'')) = Inr (Some [''-c'', ''echo''])
   \<and> format_args (Some (Args_list [''a b'', ''c''])) = Inr (Some [''a b'', ''c''])
   \<and> posix_safe quoted_args
   \<and> posix_split quoted_args = Some [''-c'', ''a b'', [CHR ''c'', CHR 0x5C, CHR ''d''], ''e f'']
   \<and> format_args (Some (Args_str quoted_args))
       = Inr (Some [''-c'', ''a b'', [CHR ''c'', CHR 0x5C, CHR ''d''], ''e f''])
   \<and> posix_safe open_quote_args
   \<and> posix_split open_quote_args = None
   \<and> (\<exists>m. format_args (Some (Args_str open_quote_args)) = Inl (ValueError m))"
proof -
  have p: "plain ''-c  echo''"
    by (simp add: plain_def shlex_quotes_def shlex_escape_def)
  have w: "split_words ''-c  echo'' = [''-c'', ''echo'']"
    by (simp add: split_words_word split_words_space split_words_Nil is_space_def
        shlex_whitespace_def)
  have f: "format_args (Some (Args_str ''-c  echo'')) = Inr (Some (split_words ''-c  echo''))"
    and l: "format_args (Some (Args_list [''a b'', ''c''])) = Inr (Some [''a b'', ''c''])"
    using p format_args_cases [of "[''a b'', ''c'']" "''-c  echo''"] by blast+
  from f have f': "format_args (Some (Args_str ''-c  echo'')) = Inr (Some [''-c'', ''echo''])"
    by (simp only: w)
  have sq: "posix_safe quoted_args"
    by (simp add: quoted_args_def)
  have pq: "posix_split quoted_args
      = Some [''-c'', ''a b'', [CHR ''c'', CHR 0x5C, CHR ''d''], ''e f'']"
    by (simp add: quoted_args_def posix_split_def posix_blanks_def begun_def)
  from sq format_args_cases [of "[]" quoted_args]
  have fq: "format_args (Some (Args_str quoted_args))
       = Inr (Some [''-c'', ''a b'', [CHR ''c'', CHR 0x5C, CHR ''d''], ''e f''])"
    unfolding pq by simp
  have so: "posix_safe open_quote_args"
    by (simp add: open_quote_args_def)
  have po: "posix_split open_quote_args = None"
    by (simp add: open_quote_args_def posix_split_def posix_blanks_def begun_def)
  from so format_args_cases [of "[]" open_quote_args]
  have fo: "\<exists>m. format_args (Some (Args_str open_quote_args)) = Inl (ValueError m)"
    unfolding po by simp
  from p w f' l sq pq fq so po fo show ?thesis
    by blast
qed

text \<open>
  The claim as the specification words it, that every string is split as the POSIX shell
  splits it, fails where the rules of \<^verbatim>\<open>shlex\<close> are not those of the shell. Between
  double quotes the shell removes a backslash before a dollar sign and \<^verbatim>\<open>shlex\<close>
  keeps it; a carriage return separates words for \<^verbatim>\<open>shlex\<close> and is an ordinary
  character for the shell.
\<close>

theorem backslash_dollar_kept:
  "posix_split dollar_args = Some [''a$b'']
   \<and> format_args (Some (Args_str dollar_args)) = Inr (Some [[CHR ''a'', CHR 0x5C, CHR ''$'', CHR ''b'']])
   \<and> posix_split carriage_return_args = Some [[CHR ''a'', CHR 0x0D, CHR ''b'']]
   \<and> format_args (Some (Args_str carriage_return_args)) = Inr (Some [''a'', ''b''])"
  by (simp add: dollar_args_def carriage_return_args_def posix_split_def posix_blanks_def
      begun_def format_args_def shlex_split_def shlex_whitespace_def shlex_quotes_def
      shlex_escape_def shlex_escapedquotes_def emit_def)

text \<open>Quoting and escaping, and the two ways the splitting can fail.\<close>

lemma shlex_split_quoted:
  "shlex_split [CHR ''a'', CHR '' '', CHR 0x22, CHR ''b'', CHR '' '', CHR ''c'', CHR 0x22,
                CHR '' '', CHR ''d'', CHR 0x5C, CHR '' '', CHR ''e'']
     = Inr [''a'', ''b c'', ''d e'']"
  and "shlex_split [CHR ''a'', CHR '' '', CHR 0x27, CHR ''b''] = Inl (ValueError ''No closing quotation'')"
  and "shlex_split [CHR ''a'', CHR 0x5C] = Inl (ValueError ''No escaped character'')"
  by (simp_all add: shlex_split_def shlex_whitespace_def shlex_quotes_def shlex_escape_def
      shlex_escapedquotes_def emit_def)

section \<open>Properties of the log streaming\<close>



lemma match_items_Nil_iff: "match_items [] s = Some (m, r) \<longleftrightarrow> m = [] \<and> r = s"
  by auto































section \<open>Executions without result retrieval\<close>

lemma polls_record_call [simp]:
  "polls (record_call (Tasks sid) w) = Suc (polls w)"
  by (simp add: polls_def record_call_def)

lemma polls_append_Tasks:
  "polls (w\<lparr>calls := calls w @ replicate n (Tasks sid)\<rparr>) = polls w + n"
  by (induction n) (simp_all add: polls_def replicate_append_same [symmetric] del: replicate_Suc)

lemma service_status_at:
  assumes "service self = Some svc" and "head_state (tasks_reply c (polls w)) = Some st"
  shows "service_status c self w = (Inr st, record_call (Tasks (service_ID svc)) w)"
  using assms
  by (simp add: service_status_head_state polls_def)

lemma has_service_terminated_at:
  assumes "service self = Some svc" and "head_state (tasks_reply c (polls w)) = Some st"
  shows "has_service_terminated c self w = (Inr (terminal st), record_call (Tasks (service_ID svc)) w)"
  by (simp add: has_service_terminated_def service_status_at [OF assms] terminal_def)

text \<open>
  The two polling loops return once the client answers as they wait for: the first after
  \<open>k\<close> empty task lists and a non-empty one, the second after \<open>k\<close> polls whose first
  task is in no terminal state and one whose first task is.
\<close>

lemma wait_for_tasks_returns:
  assumes "\<forall>i<k. tasks_reply c (polls w + i) = []"
    and "tasks_reply c (polls w + k) \<noteq> []"
  shows "wait_for_tasks c sid w = Some (w\<lparr>calls := calls w @ replicate (Suc k) (Tasks sid)\<rparr>)"
  using assms
proof (induction k arbitrary: w)
  case 0
  then show ?case
    by (subst wait_for_tasks.simps)
      (simp add: cli_tasks_def polls_def record_call_def split: list.splits)
next
  case (Suc k)
  from Suc.prems(1) have now: "tasks_reply c (polls w) = []"
    by (metis add.right_neutral zero_less_Suc)
  have "wait_for_tasks c sid (record_call (Tasks sid) w)
      = Some (record_call (Tasks sid) w
                \<lparr>calls := calls (record_call (Tasks sid) w) @ replicate (Suc k) (Tasks sid)\<rparr>)"
  proof (rule Suc.IH)
    show "\<forall>i<k. tasks_reply c (polls (record_call (Tasks sid) w) + i) = []"
      using Suc.prems(1) by (metis Suc_less_eq add_Suc_shift polls_record_call)
    show "tasks_reply c (polls (record_call (Tasks sid) w) + k) \<noteq> []"
      using Suc.prems(2) by simp
  qed
  with now show ?case
    by (subst wait_for_tasks.simps)
      (simp add: cli_tasks_def polls_def [symmetric], simp add: record_call_def)
qed

lemma poll_until_terminated_returns:
  assumes "service self = Some svc"
    and "\<forall>i<k. \<exists>s. head_state (tasks_reply c (polls w + i)) = Some s \<and> \<not> terminal s"
    and "head_state (tasks_reply c (polls w + k)) = Some st" and "terminal st"
    and "head_state (tasks_reply c (polls w + k + 1)) = Some st'"
  shows "poll_until_terminated c self w
           = Some (Inr (), w\<lparr>calls := calls w @ replicate (k + 2) (Tasks (service_ID svc))\<rparr>)"
  using assms(2-)
proof (induction k arbitrary: w)
  case 0
  then show ?case
    by (subst poll_until_terminated.simps)
      (simp add: has_service_terminated_at [OF assms(1)] service_status_at [OF assms(1)],
        simp add: record_call_def numeral_2_eq_2)
next
  case (Suc k)
  from Suc.prems(1) obtain s where now: "head_state (tasks_reply c (polls w)) = Some s" "\<not> terminal s"
    by (metis add.right_neutral zero_less_Suc)
  let ?w = "record_call (Tasks (service_ID svc)) w"
  have "poll_until_terminated c self ?w
      = Some (Inr (), ?w\<lparr>calls := calls ?w @ replicate (k + 2) (Tasks (service_ID svc))\<rparr>)"
  proof (rule Suc.IH)
    show "\<forall>i<k. \<exists>s. head_state (tasks_reply c (polls ?w + i)) = Some s \<and> \<not> terminal s"
      using Suc.prems(1) by (metis Suc_less_eq add_Suc_shift polls_record_call)
    show "head_state (tasks_reply c (polls ?w + k)) = Some st"
      using Suc.prems(2) by simp
    show "terminal st" by fact
    show "head_state (tasks_reply c (polls ?w + k + 1)) = Some st'"
      using Suc.prems(4) by simp
  qed
  with now show ?case
    by (subst poll_until_terminated.simps)
      (simp add: has_service_terminated_at [OF assms(1)], simp add: record_call_def)
qed

lemma replicate_add_4: "replicate (k + 4) x = x # x # x # x # replicate k x"
  by (simp add: eval_nat_numeral)

lemma inspect_tasks_all:
  "map task_ContainerID ts = map Some ids \<Longrightarrow>
   inspect_tasks c ts self w =
     (Inr (), self\<lparr>containers := containers self @ map (inspect_container_reply c) ids\<rparr>,
      w\<lparr>calls := calls w @ map Inspect_container ids\<rparr>)"
proof (induction ts arbitrary: ids self w)
  case Nil
  then show ?case by simp
next
  case (Cons t ts)
  then obtain i ids' where ids: "ids = i # ids'" by (cases ids) auto
  with Cons.prems have t: "task_ContainerID t = Some i"
    and rest: "map task_ContainerID ts = map Some ids'" by auto
  show ?case
    by (simp add: t ids cli_inspect_container_def Cons.IH [OF rest] record_call_def)
qed

text \<open>
  Without result retrieval, once the first task stays in a terminal state other than
  "complete", the run raises its AirflowException, after one
  \<^verbatim>\<open>remove_service\<close> when the policy is "force" and none otherwise.
\<close>

lemma finish_service_not_complete:
  assumes svc: "service self = Some svc" and "\<not> retrieve_output self"
    and before: "\<forall>i<k. \<exists>s. head_state (tasks_reply c (polls w + i)) = Some s \<and> \<not> terminal s"
    and after: "\<forall>n\<ge>polls w + k. head_state (tasks_reply c n) = Some st"
    and st: "terminal st" "st \<noteq> ''complete''"
  shows "finish_service c self w =
           Some (Inl (AirflowException (Service_did_not_complete svc)), self,
                 w\<lparr>calls := calls w @ replicate (k + 4) (Tasks (service_ID svc))
                       @ (if auto_remove self = ''force''
                          then [Remove_service (service_ID svc)] else [])\<rparr>)"
proof -
  define w4 where "w4 = w\<lparr>calls := calls w @ replicate (k + 2) (Tasks (service_ID svc))\<rparr>"
  define w5 where "w5 = record_call (Tasks (service_ID svc)) w4"
  define w6 where "w6 = record_call (Tasks (service_ID svc)) w5"
  have poll: "poll_until_terminated c self w = Some (Inr (), w4)"
    unfolding w4_def
    using after by (intro poll_until_terminated_returns [OF svc before _ st(1)]) simp_all
  have p4: "polls w4 = polls w + k + 2"
    unfolding w4_def polls_append_Tasks by simp
  have p5: "polls w5 = polls w + k + 3"
    by (simp add: w5_def p4)
  have s4: "service_status c self w4 = (Inr st, w5)"
    unfolding w5_def using after by (intro service_status_at [OF svc]) (simp add: p4)
  have s5: "service_status c self w5 = (Inr st, w6)"
    unfolding w6_def using after by (intro service_status_at [OF svc]) (simp add: p5)
  have "finish_service c self w =
      Some (Inl (AirflowException (Service_did_not_complete svc)), self,
            if auto_remove self = ''force'' then record_call (Remove_service (service_ID svc)) w6
            else w6)"
    using assms(2) st(2)
    by (simp add: finish_service_def poll collect_containers_def remove_or_fail_def svc s4 s5
        cli_remove_service_def)
  also have "(if auto_remove self = ''force'' then record_call (Remove_service (service_ID svc)) w6
            else w6)
      = w\<lparr>calls := calls w @ replicate (k + 4) (Tasks (service_ID svc))
                       @ (if auto_remove self = ''force''
                          then [Remove_service (service_ID svc)] else [])\<rparr>"
    by (simp add: w6_def w5_def w4_def record_call_def replicate_add_4
        replicate_app_Cons_same)
  finally show ?thesis .
qed

text \<open>
  Without result retrieval, once the first task stays in the state "complete" and every
  task of the harvest has a container, the run returns None; the containers are inspected
  in order, and then the service is removed once when the policy is "success" or "force".
\<close>

lemma finish_service_complete:
  assumes svc: "service self = Some svc" and "\<not> retrieve_output self"
    and before: "\<forall>i<k. \<exists>s. head_state (tasks_reply c (polls w + i)) = Some s \<and> \<not> terminal s"
    and after: "\<forall>n\<ge>polls w + k. head_state (tasks_reply c n) = Some ''complete''"
    and harvest: "tasks_reply c (polls w + k + 3) = ts" "map task_ContainerID ts = map Some ids"
  shows "finish_service c self w =
           Some (Inr Py_None,
                 self\<lparr>tasks := ts,
                      containers := containers self @ map (inspect_container_reply c) ids\<rparr>,
                 w\<lparr>calls := calls w @ replicate (k + 4) (Tasks (service_ID svc))
                       @ map Inspect_container ids @ [Tasks (service_ID svc)]
                       @ (if auto_remove self \<in> {''success'', ''force''}
                          then [Remove_service (service_ID svc)] else [])\<rparr>)"
proof -
  define w4 where "w4 = w\<lparr>calls := calls w @ replicate (k + 2) (Tasks (service_ID svc))\<rparr>"
  define w5 where "w5 = record_call (Tasks (service_ID svc)) w4"
  define w6 where "w6 = record_call (Tasks (service_ID svc)) w5"
  define w7 where "w7 = w6\<lparr>calls := calls w6 @ map Inspect_container ids\<rparr>"
  define w8 where "w8 = record_call (Tasks (service_ID svc)) w7"
  define self' where "self' = self\<lparr>tasks := ts,
      containers := containers self @ map (inspect_container_reply c) ids\<rparr>"
  have tc: "terminal ''complete''" by (simp add: terminal_def)
  have poll: "poll_until_terminated c self w = Some (Inr (), w4)"
    unfolding w4_def
    using after by (intro poll_until_terminated_returns [OF svc before _ tc]) simp_all
  have p4: "polls w4 = polls w + k + 2"
    unfolding w4_def polls_append_Tasks by simp
  have p5: "polls w5 = polls w + k + 3"
    by (simp add: w5_def p4)
  have s4: "service_status c self w4 = (Inr ''complete'', w5)"
    unfolding w5_def using after by (intro service_status_at [OF svc]) (simp add: p4)
  have t5: "cli_tasks c (service_ID svc) w5 = (ts, w6)"
    using harvest(1) by (simp add: cli_tasks_def polls_def [symmetric] p5 w6_def)
  have i6: "inspect_tasks c ts (self\<lparr>tasks := ts\<rparr>) w6 = (Inr (), self', w7)"
    by (simp add: inspect_tasks_all [OF harvest(2)] self'_def w7_def)
  have p7: "polls w7 = polls w + k + 4"
    using p5 by (simp add: w7_def w6_def polls_def record_call_def filter_map comp_def)
  have svc': "service self' = Some svc"
    using svc by (simp add: self'_def)
  have s7: "service_status c self' w7 = (Inr ''complete'', w8)"
    unfolding w8_def using after by (intro service_status_at [OF svc']) (simp add: p7)
  have ro: "\<not> retrieve_output self'" "auto_remove self' = auto_remove self"
    using assms(2) by (simp_all add: self'_def)
  have "finish_service c self w =
      Some (Inr Py_None, self',
            if auto_remove self \<in> {''success'', ''force''}
            then record_call (Remove_service (service_ID svc)) w8 else w8)"
    by (simp add: finish_service_def poll collect_containers_def svc s4 t5 i6 ro
        remove_or_fail_def svc' s7 cli_remove_service_def)
  also have "(if auto_remove self \<in> {''success'', ''force''}
            then record_call (Remove_service (service_ID svc)) w8 else w8)
      = w\<lparr>calls := calls w @ replicate (k + 4) (Tasks (service_ID svc))
                       @ map Inspect_container ids @ [Tasks (service_ID svc)]
                       @ (if auto_remove self \<in> {''success'', ''force''}
                          then [Remove_service (service_ID svc)] else [])\<rparr>"
    by (simp add: w8_def w7_def w6_def w5_def w4_def record_call_def replicate_add_4
        replicate_app_Cons_same)
  finally show ?thesis by (simp add: self'_def)
qed

text \<open>
  The same two facts for the whole of \<^verbatim>\<open>_run_service\<close> with log streaming
  disabled, started in a world with no calls: \<open>j\<close> empty answers, a non-empty one,
  \<open>k\<close> polls in no terminal state, and the terminal state from then on.
\<close>

lemma run_service_not_complete:
  assumes fa: "format_args (args self0) = Inr a"
    and cr: "create_service_reply c = Some svc"
    and flags: "\<not> enable_logging self0" "\<not> retrieve_output self0"
    and w0: "calls w0 = []"
    and empties: "\<forall>i<j. tasks_reply c i = []" and started: "tasks_reply c j \<noteq> []"
    and before: "\<forall>i<k. \<exists>s. head_state (tasks_reply c (Suc j + i)) = Some s \<and> \<not> terminal s"
    and after: "\<forall>n\<ge>Suc j + k. head_state (tasks_reply c n) = Some st"
    and st: "terminal st" "st \<noteq> ''complete''"
  shows "run_service c self0 w0 =
           Some (Inl (AirflowException (Service_did_not_complete svc)),
                 self0\<lparr>service := Some svc\<rparr>,
                 w0\<lparr>calls := Create_service # replicate (j + k + 5) (Tasks (service_ID svc))
                        @ (if auto_remove self0 = ''force''
                           then [Remove_service (service_ID svc)] else [])\<rparr>)"
proof -
  define w1 where "w1 = record_call Create_service w0"
  define w2 where "w2 = w1\<lparr>calls := calls w1 @ replicate (Suc j) (Tasks (service_ID svc))\<rparr>"
  define self where "self = self0\<lparr>service := Some svc\<rparr>"
  have p1: "polls w1 = 0"
    by (simp add: w1_def polls_def record_call_def w0)
  have wait: "wait_for_tasks c (service_ID svc) w1 = Some w2"
    unfolding w2_def using empties started
    by (intro wait_for_tasks_returns) (simp_all add: p1)
  have p2: "polls w2 = Suc j"
    unfolding w2_def polls_append_Tasks by (simp add: p1)
  have self: "service self = Some svc" "\<not> retrieve_output self" "\<not> enable_logging self"
    "auto_remove self = auto_remove self0"
    using flags by (simp_all add: self_def)
  have fin: "finish_service c self w2 =
           Some (Inl (AirflowException (Service_did_not_complete svc)), self,
                 w2\<lparr>calls := calls w2 @ replicate (k + 4) (Tasks (service_ID svc))
                       @ (if auto_remove self = ''force''
                          then [Remove_service (service_ID svc)] else [])\<rparr>)"
    using before after
    by (intro finish_service_not_complete [OF self(1,2) _ _ st]) (simp_all add: p2)
  have "run_service c self0 w0 = finish_service c self w2"
    using self(3)
    by (simp add: run_service_def fa cli_create_service_def cr w1_def [symmetric]
        self_def [symmetric] wait)
  also note fin
  also have "w2\<lparr>calls := calls w2 @ replicate (k + 4) (Tasks (service_ID svc))
                       @ (if auto_remove self = ''force''
                          then [Remove_service (service_ID svc)] else [])\<rparr>
      = w0\<lparr>calls := Create_service # replicate (j + k + 5) (Tasks (service_ID svc))
                        @ (if auto_remove self0 = ''force''
                           then [Remove_service (service_ID svc)] else [])\<rparr>"
    by (simp add: w2_def w1_def record_call_def w0 self(4) replicate_add [symmetric]
        del: replicate_Suc)
  finally show ?thesis by (simp add: self_def)
qed

lemma run_service_complete:
  assumes fa: "format_args (args self0) = Inr a"
    and cr: "create_service_reply c = Some svc"
    and flags: "\<not> enable_logging self0" "\<not> retrieve_output self0"
    and w0: "calls w0 = []"
    and empties: "\<forall>i<j. tasks_reply c i = []" and started: "tasks_reply c j \<noteq> []"
    and before: "\<forall>i<k. \<exists>s. head_state (tasks_reply c (Suc j + i)) = Some s \<and> \<not> terminal s"
    and after: "\<forall>n\<ge>Suc j + k. head_state (tasks_reply c n) = Some ''complete''"
    and harvest: "tasks_reply c (j + k + 4) = ts" "map task_ContainerID ts = map Some ids"
  shows "run_service c self0 w0 =
           Some (Inr Py_None,
                 self0\<lparr>service := Some svc, tasks := ts,
                       containers := containers self0 @ map (inspect_container_reply c) ids\<rparr>,
                 w0\<lparr>calls := Create_service # replicate (j + k + 5) (Tasks (service_ID svc))
                        @ map Inspect_container ids @ [Tasks (service_ID svc)]
                        @ (if auto_remove self0 \<in> {''success'', ''force''}
                           then [Remove_service (service_ID svc)] else [])\<rparr>)"
proof -
  define w1 where "w1 = record_call Create_service w0"
  define w2 where "w2 = w1\<lparr>calls := calls w1 @ replicate (Suc j) (Tasks (service_ID svc))\<rparr>"
  define self where "self = self0\<lparr>service := Some svc\<rparr>"
  have p1: "polls w1 = 0"
    by (simp add: w1_def polls_def record_call_def w0)
  have wait: "wait_for_tasks c (service_ID svc) w1 = Some w2"
    unfolding w2_def using empties started
    by (intro wait_for_tasks_returns) (simp_all add: p1)
  have p2: "polls w2 = Suc j"
    unfolding w2_def polls_append_Tasks by (simp add: p1)
  have self: "service self = Some svc" "\<not> retrieve_output self" "\<not> enable_logging self"
    "auto_remove self = auto_remove self0" "containers self = containers self0"
    using flags by (simp_all add: self_def)
  have fin: "finish_service c self w2 =
           Some (Inr Py_None,
                 self\<lparr>tasks := ts,
                      containers := containers self @ map (inspect_container_reply c) ids\<rparr>,
                 w2\<lparr>calls := calls w2 @ replicate (k + 4) (Tasks (service_ID svc))
                       @ map Inspect_container ids @ [Tasks (service_ID svc)]
                       @ (if auto_remove self \<in> {''success'', ''force''}
                          then [Remove_service (service_ID svc)] else [])\<rparr>)"
    using before after harvest(1)
    by (intro finish_service_complete [OF self(1,2) _ _ _ harvest(2)])
      (simp_all add: p2 add.commute add.left_commute)
  have "run_service c self0 w0 = finish_service c self w2"
    using self(3)
    by (simp add: run_service_def fa cli_create_service_def cr w1_def [symmetric]
        self_def [symmetric] wait)
  also note fin
  also have "w2\<lparr>calls := calls w2 @ replicate (k + 4) (Tasks (service_ID svc))
                       @ map Inspect_container ids @ [Tasks (service_ID svc)]
                       @ (if auto_remove self \<in> {''success'', ''force''}
                          then [Remove_service (service_ID svc)] else [])\<rparr>
      = w0\<lparr>calls := Create_service # replicate (j + k + 5) (Tasks (service_ID svc))
                        @ map Inspect_container ids @ [Tasks (service_ID svc)]
                        @ (if auto_remove self0 \<in> {''success'', ''force''}
                           then [Remove_service (service_ID svc)] else [])\<rparr>"
    by (simp add: w2_def w1_def record_call_def w0 self(4) replicate_add [symmetric]
        del: replicate_Suc)
  finally show ?thesis by (simp add: self_def)
qed

section \<open>Executions with result retrieval\<close>

lemmas run_defs =
  run_service_def finish_service_def format_args_def cli_create_service_def record_call_def wait_for_tasks.simps
  cli_tasks_def poll_until_terminated.simps has_service_terminated_def service_status_def
  collect_containers_def cli_inspect_container_def attempt_to_retrieve_results_def
  copy_from_docker_def remove_or_fail_def cli_remove_service_def
  demo_client_def demo_operator_def world0_def scripted_def one_task_def

text \<open>
  C1 does not hold on this execution: the service ends in the state "failed", the
  auto-remove policy is "force" and result retrieval is requested. The early return for
  \<^verbatim>\<open>retrieve_output\<close> comes before the removal and the raise, so the run returns
  the empty list of results, the client never receives \<^verbatim>\<open>remove_service\<close>, and no
  exception reaches the caller.
\<close>

theorem failed_service_with_retrieve_output:
  "run_service (demo_client [] (one_task ''failed''))
     (demo_operator\<lparr>auto_remove := ''force'', retrieve_output := True\<rparr>) world0
   = Some (Inr (Values []),
           demo_operator\<lparr>auto_remove := ''force'', retrieve_output := True,
                          service := Some \<lparr>service_ID = ''svc''\<rparr>\<rparr>,
           \<lparr>calls = [Create_service, Tasks ''svc'', Tasks ''svc'', Tasks ''svc'', Tasks ''svc''],
            log_info = []\<rparr>)"
  by (simp add: run_defs)

text \<open>The same execution without result retrieval: the service is removed and the run raises.\<close>

lemma failed_service_without_retrieve_output:
  "run_service (demo_client [] (one_task ''failed''))
     (demo_operator\<lparr>auto_remove := ''force''\<rparr>) world0
   = Some (Inl (AirflowException (Service_did_not_complete \<lparr>service_ID = ''svc''\<rparr>)),
           demo_operator\<lparr>auto_remove := ''force'', service := Some \<lparr>service_ID = ''svc''\<rparr>\<rparr>,
           \<lparr>calls = [Create_service, Tasks ''svc'', Tasks ''svc'', Tasks ''svc'', Tasks ''svc'',
                     Tasks ''svc'', Remove_service ''svc''],
            log_info = []\<rparr>)"
  by (simp add: run_defs)

text \<open>
  C5 does not hold on this execution: the service ends in the state "complete", the
  auto-remove policy is "force" and result retrieval is requested. The container is
  harvested and its output copied, and the run returns before the removal: the client never
  receives \<^verbatim>\<open>remove_service\<close>.
\<close>

theorem complete_service_with_retrieve_output:
  "run_service (demo_client [] (one_task ''complete''))
     (demo_operator\<lparr>auto_remove := ''force'', retrieve_output := True\<rparr>) world0
   = Some (Inr (Value ''c1:/tmp/out''),
           demo_operator\<lparr>auto_remove := ''force'', retrieve_output := True,
                          service := Some \<lparr>service_ID = ''svc''\<rparr>,
                          tasks := one_task ''complete'',
                          containers := [\<lparr>container_Id = ''c1''\<rparr>]\<rparr>,
           \<lparr>calls = [Create_service, Tasks ''svc'', Tasks ''svc'', Tasks ''svc'', Tasks ''svc'',
                     Tasks ''svc'', Inspect_container ''c1'', Copy_from_docker ''c1'' ''/tmp/out''],
            log_info = []\<rparr>)"
  by (simp add: run_defs)

text \<open>
  The same execution without result retrieval: one \<^verbatim>\<open>remove_service\<close>, after the
  container was inspected.
\<close>

lemma complete_service_without_retrieve_output:
  "run_service (demo_client [] (one_task ''complete''))
     (demo_operator\<lparr>auto_remove := ''force''\<rparr>) world0
   = Some (Inr Py_None,
           demo_operator\<lparr>auto_remove := ''force'',
                          service := Some \<lparr>service_ID = ''svc''\<rparr>,
                          tasks := one_task ''complete'',
                          containers := [\<lparr>container_Id = ''c1''\<rparr>]\<rparr>,
           \<lparr>calls = [Create_service, Tasks ''svc'', Tasks ''svc'', Tasks ''svc'', Tasks ''svc'',
                     Tasks ''svc'', Inspect_container ''c1'', Tasks ''svc'', Remove_service ''svc''],
            log_info = []\<rparr>)"
  by (simp add: run_defs)

end
